theory Spec2Isabelle
  imports Complex_Main "HOL-Library.Sublist" "HOL-Library.Char_ord"
    "HOL-Library.List_Lexorder" "HOL-Library.Product_Lexorder"
begin

section \<open>Data model\<close>

text \<open>
  The dashboard works on one pandas DataFrame. Only the columns read by the functions
  embedded below are named. A DataFrame is modelled by the list of column labels it has
  and the list of its rows, in index order. A row gives every column a cell; the cell of
  a column the frame does not have is never read, because every column access first
  checks the label and raises \<open>KeyError\<close> when it is missing.

  Columns are typed as \<open>load_data\<close> leaves them: text columns hold strings, numeric
  columns hold numbers, and \<open>None\<close> is the missing value (NaN). Numbers are exact
  rationals: rounding and the infinities of float64 are outside the model. A string is
  a list of 8-bit characters, read as the code points U+0000 to U+00FF; on these
  \<open>lower\<close>, \<open>strip\<close>, \<open>isalpha\<close>, \<open>isdigit\<close>, \<open>\d\<close> and \<open>\w\<close> are what Python 3 makes of
  them. Code points above U+00FF are outside the model.
\<close>

datatype column =
    BOROUGH | CRASH_YEAR
  | VEHICLE_TYPE_CODE_1 | VEHICLE_TYPE_CODE_2
  | CONTRIBUTING_FACTOR_VEHICLE_1 | CONTRIBUTING_FACTOR_VEHICLE_2
  | NUMBER_OF_PEDESTRIANS_INJURED | NUMBER_OF_PEDESTRIANS_KILLED
  | NUMBER_OF_CYCLIST_INJURED | NUMBER_OF_CYCLIST_KILLED
  | NUMBER_OF_MOTORIST_INJURED | NUMBER_OF_MOTORIST_KILLED
  | NUMBER_OF_PERSONS_INJURED | NUMBER_OF_PERSONS_KILLED
  | TOTAL_INJURED | TOTAL_KILLED
  | LATITUDE | LONGITUDE

record crash =
  text_cell :: "column \<Rightarrow> string option"
  num_cell :: "column \<Rightarrow> rat option"

record dataframe =
  columns :: "column list"
  rows :: "crash list"

datatype error = KeyError column | ZeroDivisionError

text \<open>
  The values a filter dictionary holds: \<open>None\<close>, a string or an integer. The parser
  and the dropdowns produce nothing else.
\<close>

datatype pyval = PNone | PStr string | PInt int

record filters =
  borough :: pyval
  year :: pyval
  vehicle_type :: pyval
  contributing_factor :: pyval
  injury_type :: pyval

text \<open>Python truthiness: \<open>None\<close>, the empty string and \<open>0\<close> are false.\<close>

fun truthy :: "pyval \<Rightarrow> bool" where
  "truthy PNone = False"
| "truthy (PStr s) = (s \<noteq> [])"
| "truthy (PInt i) = (i \<noteq> 0)"

text \<open>
  \<open>series == value\<close>, cell by cell. A missing cell equals nothing, a string equals
  only the same string, a number only the same number.
\<close>

fun text_eq :: "string option \<Rightarrow> pyval \<Rightarrow> bool" where
  "text_eq (Some s) (PStr t) = (s = t)"
| "text_eq _ _ = False"

fun num_eq :: "rat option \<Rightarrow> pyval \<Rightarrow> bool" where
  "num_eq (Some x) (PInt i) = (x = of_int i)"
| "num_eq _ _ = False"

text \<open>\<open>series > 0\<close>: false on a missing cell.\<close>

fun gt0 :: "rat option \<Rightarrow> bool" where
  "gt0 (Some x) = (0 < x)"
| "gt0 None = False"

section \<open>The filter engine\<close>

text \<open>
  \<open>df[mask]\<close> where the mask reads the columns \<open>cs\<close> (in that order) and holds on
  the rows satisfying \<open>P\<close>: the first missing label raises, otherwise the rows that
  satisfy \<open>P\<close> are kept in order and the labels are unchanged.
\<close>

definition select :: "column list \<Rightarrow> (crash \<Rightarrow> bool) \<Rightarrow> dataframe \<Rightarrow> error + dataframe" where
  "select cs P df =
     (case find (\<lambda>c. c \<notin> set (columns df)) cs of
        Some c \<Rightarrow> Inl (KeyError c)
      | None \<Rightarrow> Inr (df\<lparr>rows := filter P (rows df)\<rparr>))"

text \<open>\<open>filters.get(k) and filters[k] != 'All'\<close>\<close>

definition active :: "pyval \<Rightarrow> bool" where
  "active v = (truthy v \<and> v \<noteq> PStr ''All'')"

text \<open>\<open>isinstance(v, (int, float))\<close>\<close>

fun is_number :: "pyval \<Rightarrow> bool" where
  "is_number (PInt i) = True"
| "is_number _ = False"

definition borough_filter :: "filters \<Rightarrow> dataframe \<Rightarrow> error + dataframe" where
  "borough_filter f df =
     (if active (borough f)
      then select [BOROUGH] (\<lambda>r. text_eq (text_cell r BOROUGH) (borough f)) df
      else Inr df)"

definition year_filter :: "filters \<Rightarrow> dataframe \<Rightarrow> error + dataframe" where
  "year_filter f df =
     (if active (year f)
      then (if is_number (year f)
            then select [CRASH_YEAR] (\<lambda>r. num_eq (num_cell r CRASH_YEAR) (year f)) df
            else Inr df)
      else Inr df)"

definition vehicle_filter :: "filters \<Rightarrow> dataframe \<Rightarrow> error + dataframe" where
  "vehicle_filter f df =
     (if active (vehicle_type f)
      then select [VEHICLE_TYPE_CODE_1, VEHICLE_TYPE_CODE_2]
             (\<lambda>r. text_eq (text_cell r VEHICLE_TYPE_CODE_1) (vehicle_type f)
                 \<or> text_eq (text_cell r VEHICLE_TYPE_CODE_2) (vehicle_type f)) df
      else Inr df)"

definition factor_filter :: "filters \<Rightarrow> dataframe \<Rightarrow> error + dataframe" where
  "factor_filter f df =
     (if active (contributing_factor f)
      then select [CONTRIBUTING_FACTOR_VEHICLE_1, CONTRIBUTING_FACTOR_VEHICLE_2]
             (\<lambda>r. text_eq (text_cell r CONTRIBUTING_FACTOR_VEHICLE_1) (contributing_factor f)
                 \<or> text_eq (text_cell r CONTRIBUTING_FACTOR_VEHICLE_2) (contributing_factor f)) df
      else Inr df)"

definition injury_filter :: "filters \<Rightarrow> dataframe \<Rightarrow> error + dataframe" where
  "injury_filter f df =
     (if active (injury_type f)
      then (if injury_type f = PStr ''Pedestrian''
            then select [NUMBER_OF_PEDESTRIANS_INJURED, NUMBER_OF_PEDESTRIANS_KILLED]
                   (\<lambda>r. gt0 (num_cell r NUMBER_OF_PEDESTRIANS_INJURED)
                       \<or> gt0 (num_cell r NUMBER_OF_PEDESTRIANS_KILLED)) df
            else if injury_type f = PStr ''Cyclist''
            then select [NUMBER_OF_CYCLIST_INJURED, NUMBER_OF_CYCLIST_KILLED]
                   (\<lambda>r. gt0 (num_cell r NUMBER_OF_CYCLIST_INJURED)
                       \<or> gt0 (num_cell r NUMBER_OF_CYCLIST_KILLED)) df
            else if injury_type f = PStr ''Motorist''
            then select [NUMBER_OF_MOTORIST_INJURED, NUMBER_OF_MOTORIST_KILLED]
                   (\<lambda>r. gt0 (num_cell r NUMBER_OF_MOTORIST_INJURED)
                       \<or> gt0 (num_cell r NUMBER_OF_MOTORIST_KILLED)) df
            else Inr df)
      else Inr df)"

text \<open>Sequencing of steps that may raise: the first exception ends the call.\<close>

definition andThen :: "error + 'a \<Rightarrow> ('a \<Rightarrow> error + 'b) \<Rightarrow> error + 'b" where
  "andThen m k = (case m of Inl e \<Rightarrow> Inl e | Inr x \<Rightarrow> k x)"

definition apply_filters :: "dataframe \<Rightarrow> filters \<Rightarrow> error + dataframe" where
  "apply_filters df f =
     andThen (andThen (andThen (andThen (borough_filter f df)
       (year_filter f)) (vehicle_filter f)) (factor_filter f)) (injury_filter f)"

section \<open>The query parser\<close>

text \<open>
  Character classes are given by ranges of code points. Python 3 matches \<open>str\<close> patterns
  by Unicode: \<open>\d\<close> is a decimal digit, of which U+0000 to U+00FF hold 0 to 9 only, and
  \<open>\w\<close> is an alphanumeric character or the underscore, which takes in the accented
  letters, the ordinal indicators, the micro sign, the superscript digits and the
  fractions. \<open>str.lower\<close> moves A to Z and the capital accented letters 32 places up.
\<close>

definition code :: "char \<Rightarrow> nat" where
  "code c = of_char c"

definition in_ranges :: "(nat \<times> nat) list \<Rightarrow> char \<Rightarrow> bool" where
  "in_ranges rs c = list_ex (\<lambda>(lo, hi). lo \<le> code c \<and> code c \<le> hi) rs"

definition is_digit :: "char \<Rightarrow> bool" where
  "is_digit c = (c \<in> set ''0123456789'')"

definition is_word :: "char \<Rightarrow> bool" where
  "is_word c =
     in_ranges [(48, 57), (65, 90), (95, 95), (97, 122), (170, 170), (178, 179), (181, 181),
                (185, 186), (188, 190), (192, 214), (216, 246), (248, 255)] c"

definition lower_char :: "char \<Rightarrow> char" where
  "lower_char c =
     (if in_ranges [(65, 90), (192, 214), (216, 222)] c then char_of (code c + 32) else c)"

definition lower :: "string \<Rightarrow> string" where
  "lower s = map lower_char s"

text \<open>\<open>key in s\<close>: \<open>key\<close> occurs in \<open>s\<close> as a contiguous substring.\<close>

fun contains :: "string \<Rightarrow> string \<Rightarrow> bool" where
  "contains [] k = (k = [])"
| "contains (c # cs) k = (prefix k (c # cs) \<or> contains cs k)"

text \<open>
  \<open>int(s)\<close> on a string of ASCII digits; \<open>None\<close> stands for \<open>ValueError\<close>. The
  parser only calls it on the text matched by the year pattern.
\<close>

definition digit_value :: "char \<Rightarrow> nat" where
  "digit_value c = (of_char c :: nat) - 48"

definition py_int :: "string \<Rightarrow> int option" where
  "py_int s =
     (if s \<noteq> [] \<and> list_all is_digit s
      then Some (int (foldl (\<lambda>n c. 10 * n + digit_value c) 0 s))
      else None)"

text \<open>
  The two year patterns without their \<open>\b\<close> anchors, tried at the head of a string:
  \<open>(19|20)\d{2}\<close> and \<open>(19\d{2}|20\d{2})\<close>.
\<close>

fun year_pattern :: "string \<Rightarrow> bool" where
  "year_pattern (a # b # c # d # rest) =
     (([a, b] = ''19'' \<or> [a, b] = ''20'') \<and> is_digit c \<and> is_digit d)"
| "year_pattern _ = False"

fun full_year_pattern :: "string \<Rightarrow> bool" where
  "full_year_pattern (a # b # c # d # rest) =
     (([a, b] = ''19'' \<and> is_digit c \<and> is_digit d)
      \<or> ([a, b] = ''20'' \<and> is_digit c \<and> is_digit d))"
| "full_year_pattern _ = False"

text \<open>
  \<open>\b\<close> holds between two neighbouring positions when exactly one of them is a word
  character; the start and the end of the string count as non-word.
\<close>

fun word_at :: "char option \<Rightarrow> bool" where
  "word_at None = False"
| "word_at (Some c) = is_word c"

definition boundary :: "char option \<Rightarrow> char option \<Rightarrow> bool" where
  "boundary p n = (word_at p \<noteq> word_at n)"

fun char_at :: "string \<Rightarrow> nat \<Rightarrow> char option" where
  "char_at s i = (if i < length s then Some (s ! i) else None)"

text \<open>
  \<open>\b pat \b\<close> matched at the head of \<open>s\<close>, where \<open>p\<close> is the character before \<open>s\<close>
  in the searched text and \<open>pat\<close> consumes four characters.
\<close>

definition match_here :: "(string \<Rightarrow> bool) \<Rightarrow> char option \<Rightarrow> string \<Rightarrow> bool" where
  "match_here pat p s =
     (boundary p (char_at s 0) \<and> pat s \<and> boundary (char_at s 3) (char_at s 4))"

text \<open>\<open>re.search\<close>: the leftmost match, returned as the matched text (\<open>group()\<close>).\<close>

fun re_search :: "(string \<Rightarrow> bool) \<Rightarrow> char option \<Rightarrow> string \<Rightarrow> string option" where
  "re_search pat p [] = None"
| "re_search pat p (c # cs) =
     (if match_here pat p (c # cs) then Some (take 4 (c # cs))
      else re_search pat (Some c) cs)"

definition extract_year :: "string \<Rightarrow> pyval" where
  "extract_year query =
     (case re_search year_pattern None query of
        None \<Rightarrow> PNone
      | Some m \<Rightarrow>
          (case re_search full_year_pattern None query of
             None \<Rightarrow> PNone
           | Some g \<Rightarrow> (case py_int g of None \<Rightarrow> PNone | Some n \<Rightarrow> PInt n)))"

text \<open>
  The keyword dictionaries, in insertion order, which is the order a Python dict is
  iterated in.
\<close>

definition boroughs :: "(string \<times> string) list" where
  "boroughs =
     [(''brooklyn'', ''BROOKLYN''), (''manhattan'', ''MANHATTAN''),
      (''queens'', ''QUEENS''), (''bronx'', ''BRONX''),
      (''staten island'', ''STATEN ISLAND'')]"

definition vehicle_keywords :: "(string \<times> string) list" where
  "vehicle_keywords =
     [(''sedan'', ''Sedan''),
      (''suv'', ''Station Wagon/Sport Utility Vehicle''),
      (''sport utility'', ''Station Wagon/Sport Utility Vehicle''),
      (''truck'', ''Truck''), (''pickup'', ''Pick-up Truck''),
      (''motorcycle'', ''Motorcycle''), (''moped'', ''Moped''),
      (''bicycle'', ''Bicycle''), (''bike'', ''Bicycle''),
      (''bus'', ''Bus''),
      (''van'', ''Van''),
      (''taxi'', ''Taxi''),
      (''ambulance'', ''Ambulance'')]"

definition factor_keywords :: "(string \<times> string) list" where
  "factor_keywords =
     [(''speeding'', ''Unsafe Speed''), (''speed'', ''Unsafe Speed''),
      (''alcohol'', ''Alcohol Involvement''), (''drunk'', ''Alcohol Involvement''),
      (''distraction'', ''Driver Inattention/Distraction''),
      (''inattention'', ''Driver Inattention/Distraction''),
      (''red light'', ''Traffic Control Disregarded''),
      (''stop sign'', ''Traffic Control Disregarded'')]"

text \<open>
  \<open>for key, value in table.items(): if key in query_lower: ... break\<close>: the value
  of the first entry whose key occurs in the query, \<open>None\<close> when no key does.
\<close>

fun first_keyword :: "(string \<times> string) list \<Rightarrow> string \<Rightarrow> pyval" where
  "first_keyword [] q = PNone"
| "first_keyword ((k, v) # table) q = (if contains q k then PStr v else first_keyword table q)"

definition extract_injury :: "string \<Rightarrow> pyval" where
  "extract_injury q =
     (if contains q ''pedestrian'' then PStr ''Pedestrian''
      else if contains q ''cyclist'' \<or> contains q ''bicycle'' then PStr ''Cyclist''
      else if contains q ''motorist'' \<or> contains q ''driver'' then PStr ''Motorist''
      else PNone)"

definition parse_search_query :: "string \<Rightarrow> filters" where
  "parse_search_query query =
     (if query = []
      then \<lparr>borough = PNone, year = PNone, vehicle_type = PNone,
            contributing_factor = PNone, injury_type = PNone\<rparr>
      else
        (let query_lower = lower query in
         \<lparr>borough = first_keyword boroughs query_lower,
          year = extract_year query,
          vehicle_type = first_keyword vehicle_keywords query_lower,
          contributing_factor = first_keyword factor_keywords query_lower,
          injury_type = extract_injury query_lower\<rparr>))"

text \<open>
  The year as the specification words it: the first four characters of the query that
  match \<open>(19|20)\d\d\<close>, wherever they stand.
\<close>

fun first_year_substring :: "string \<Rightarrow> string option" where
  "first_year_substring [] = None"
| "first_year_substring (c # cs) =
     (if year_pattern (c # cs) then Some (take 4 (c # cs)) else first_year_substring cs)"

text \<open>
  A year token at position \<open>i\<close>: four characters matching \<open>(19|20)\d\d\<close> with no word
  character directly before or directly after them. A word character is what \<open>\w\<close>
  matches: a letter or a digit in Unicode's sense, accented letters included, or the
  underscore.
\<close>

definition year_token :: "string \<Rightarrow> nat \<Rightarrow> bool" where
  "year_token q i =
     (year_pattern (drop i q)
      \<and> (i = 0 \<or> \<not> is_word (q ! (i - 1)))
      \<and> (length q = i + 4 \<or> \<not> is_word (q ! (i + 4))))"

text \<open>The character before position \<open>i\<close> of \<open>s\<close>, when \<open>p\<close> stands before \<open>s\<close>.\<close>

definition before :: "char option \<Rightarrow> string \<Rightarrow> nat \<Rightarrow> char option" where
  "before p s i = (if i = 0 then p else Some (s ! (i - 1)))"

section \<open>The categorical normalizer\<close>

text \<open>\<open>df[c]\<close>: the cells of a column, \<open>KeyError\<close> when the frame has no such label.\<close>

definition text_column :: "dataframe \<Rightarrow> column \<Rightarrow> error + string option list" where
  "text_column df c =
     (if c \<in> set (columns df) then Inr (map (\<lambda>r. text_cell r c) (rows df))
      else Inl (KeyError c))"

definition num_column :: "dataframe \<Rightarrow> column \<Rightarrow> error + rat option list" where
  "num_column df c =
     (if c \<in> set (columns df) then Inr (map (\<lambda>r. num_cell r c) (rows df))
      else Inl (KeyError c))"

fun dropna :: "'a option list \<Rightarrow> 'a list" where
  "dropna [] = []"
| "dropna (None # xs) = dropna xs"
| "dropna (Some x # xs) = x # dropna xs"

text \<open>\<open>unique()\<close>: the distinct values in order of first appearance.\<close>

definition unique :: "'a list \<Rightarrow> 'a list" where
  "unique xs = rev (remdups (rev xs))"

text \<open>
  \<open>sorted(xs, key=k, reverse=True)\<close>: descending by key, equal keys in their original
  order.
\<close>

definition sorted_reverse :: "('a \<Rightarrow> 'k::linorder) \<Rightarrow> 'a list \<Rightarrow> 'a list" where
  "sorted_reverse k xs = rev (sort_key k (rev xs))"

text \<open>
  \<open>value_counts()\<close>: every distinct value with the number of its occurrences, the most
  frequent first; values of equal frequency are kept in order of first appearance.
\<close>

definition value_counts :: "'a list \<Rightarrow> ('a \<times> nat) list" where
  "value_counts xs = sorted_reverse snd (map (\<lambda>v. (v, count_list xs v)) (unique xs))"

text \<open>\<open>str.isspace\<close>, the characters \<open>str.strip\<close> removes from both ends.\<close>

definition is_space :: "char \<Rightarrow> bool" where
  "is_space c = in_ranges [(9, 13), (28, 32), (133, 133), (160, 160)] c"

definition strip :: "string \<Rightarrow> string" where
  "strip s = rev (dropWhile is_space (rev (dropWhile is_space s)))"

text \<open>\<open>str.isalpha\<close> and \<open>str.isdigit\<close> of one character, then of a string.\<close>

definition is_alpha :: "char \<Rightarrow> bool" where
  "is_alpha c =
     in_ranges [(65, 90), (97, 122), (170, 170), (181, 181), (186, 186), (192, 214),
                (216, 246), (248, 255)] c"

definition isdigit_char :: "char \<Rightarrow> bool" where
  "isdigit_char c = in_ranges [(48, 57), (178, 179), (185, 185)] c"

definition isdigit :: "string \<Rightarrow> bool" where
  "isdigit s = (s \<noteq> [] \<and> list_all isdigit_char s)"

record options =
  boroughs_opt :: "string list"
  years :: "int list"
  vehicle_types :: "string list"
  contributing_factors :: "string list"
  injury_types :: "string list"

definition borough_options :: "string option list \<Rightarrow> string list" where
  "borough_options col = sort (filter (\<lambda>b. b \<noteq> [] \<and> strip b \<noteq> []) (unique (dropna col)))"

text \<open>\<open>int(year_val)\<close> truncates; on the values kept, which are positive, that is the floor.\<close>

definition year_options :: "rat option list \<Rightarrow> int list" where
  "year_options col =
     sort (remdups (map (\<lambda>y. \<lfloor>y\<rfloor>) (filter (\<lambda>y. 1900 \<le> y \<and> y \<le> 2100) (unique (dropna col)))))"

definition invalid_vehicle_patterns :: "string list" where
  "invalid_vehicle_patterns =
     [[], ''nan'', ''None'', ''Unknown'', ''-'', ''.''] @ map (\<lambda>d. [d]) ''0123456789''"

definition valid_vehicle :: "string \<Rightarrow> bool" where
  "valid_vehicle v =
     (v \<noteq> [] \<and> v \<notin> set invalid_vehicle_patterns \<and> 4 \<le> length v \<and> \<not> isdigit v
      \<and> take 1 v \<noteq> [CHR 0x27] \<and> take 1 v \<noteq> ''(''
      \<and> \<not> isdigit_char (hd v) \<and> 2 \<le> length (filter is_alpha v))"

text \<open>
  One round of the loop removing case-insensitive duplicates: \<open>seen\<close> is \<open>seen_lower\<close>,
  \<open>ded\<close> is \<open>deduplicated\<close> and \<open>cnt\<close> is \<open>vehicle_counts.get(_, 0)\<close>.
\<close>

fun dedup_step ::
  "(string \<Rightarrow> nat) \<Rightarrow> string \<Rightarrow> (string \<rightharpoonup> string) \<times> string list
     \<Rightarrow> (string \<rightharpoonup> string) \<times> string list" where
  "dedup_step cnt v (seen, ded) =
     (case seen (lower v) of
        None \<Rightarrow> (seen(lower v \<mapsto> v), ded @ [v])
      | Some existing \<Rightarrow>
          (if cnt existing < cnt v
           then (seen(lower v \<mapsto> v), remove1 existing ded @ [v])
           else (seen, ded)))"

definition vehicle_type_options :: "string option list \<Rightarrow> string option list \<Rightarrow> string list" where
  "vehicle_type_options v1 v2 =
     (let all_vehicles = dropna (v1 @ v2);
          vehicle_counts = value_counts all_vehicles;
          cnt = count_list all_vehicles;
          valid_vehicle_types = filter valid_vehicle (map (\<lambda>(v, n). strip v) vehicle_counts);
          deduplicated = snd (fold (dedup_step cnt) valid_vehicle_types (Map.empty, []));
          sorted_types = take 50 (sorted_reverse (\<lambda>x. (cnt x, x)) deduplicated)
      in sort sorted_types)"

definition invalid_factor_patterns :: "string list" where
  "invalid_factor_patterns =
     [[], ''nan'', ''None'', ''Unspecified'', ''Unknown'', ''-'', ''.'', ''0'', ''1'', ''2'']"

definition valid_factor :: "string \<Rightarrow> bool" where
  "valid_factor f =
     (f \<noteq> [] \<and> f \<notin> set invalid_factor_patterns \<and> 3 < length f \<and> \<not> isdigit f
      \<and> list_ex is_alpha f)"

definition factor_options :: "string option list \<Rightarrow> string option list \<Rightarrow> string list" where
  "factor_options c1 c2 =
     (let f1 = unique (dropna c1);
          f2 = unique (dropna c2);
          factors = filter valid_factor (map strip (unique (f1 @ f2)))
      in sort (remdups factors))"

definition boroughs_step :: "dataframe \<Rightarrow> options \<Rightarrow> error + options" where
  "boroughs_step df opts =
     (if BOROUGH \<in> set (columns df)
      then andThen (text_column df BOROUGH)
             (\<lambda>col. Inr (opts\<lparr>boroughs_opt := borough_options col\<rparr>))
      else Inr opts)"

definition years_step :: "dataframe \<Rightarrow> options \<Rightarrow> error + options" where
  "years_step df opts =
     (if CRASH_YEAR \<in> set (columns df)
      then andThen (num_column df CRASH_YEAR)
             (\<lambda>col. Inr (opts\<lparr>years := year_options col\<rparr>))
      else Inr opts)"

definition vehicle_types_step :: "dataframe \<Rightarrow> options \<Rightarrow> error + options" where
  "vehicle_types_step df opts =
     (if VEHICLE_TYPE_CODE_1 \<in> set (columns df)
      then andThen (text_column df VEHICLE_TYPE_CODE_1) (\<lambda>v1.
           andThen (text_column df VEHICLE_TYPE_CODE_2) (\<lambda>v2.
             Inr (opts\<lparr>vehicle_types := vehicle_type_options v1 v2\<rparr>)))
      else Inr opts)"

definition factors_step :: "dataframe \<Rightarrow> options \<Rightarrow> error + options" where
  "factors_step df opts =
     (if CONTRIBUTING_FACTOR_VEHICLE_1 \<in> set (columns df)
      then andThen (text_column df CONTRIBUTING_FACTOR_VEHICLE_1) (\<lambda>c1.
           andThen (if CONTRIBUTING_FACTOR_VEHICLE_2 \<in> set (columns df)
                    then text_column df CONTRIBUTING_FACTOR_VEHICLE_2 else Inr []) (\<lambda>c2.
             Inr (opts\<lparr>contributing_factors := factor_options c1 c2\<rparr>)))
      else Inr opts)"

text \<open>\<open>df.empty\<close>: no rows or no columns.\<close>

definition empty_frame :: "dataframe \<Rightarrow> bool" where
  "empty_frame df = (rows df = [] \<or> columns df = [])"

definition initial_options :: options where
  "initial_options =
     \<lparr>boroughs_opt = [], years = [], vehicle_types = [], contributing_factors = [],
      injury_types = [''All'', ''Pedestrian'', ''Cyclist'', ''Motorist'']\<rparr>"

definition get_dropdown_options :: "dataframe \<Rightarrow> error + options" where
  "get_dropdown_options df =
     (if empty_frame df then Inr initial_options
      else andThen (andThen (andThen (boroughs_step df initial_options)
             (years_step df)) (vehicle_types_step df)) (factors_step df))"

section \<open>Summary statistics and grouped series\<close>

text \<open>\<open>Series.sum()\<close> skips missing cells; the sum of no cells is 0.\<close>

definition nansum :: "rat option list \<Rightarrow> rat" where
  "nansum xs = sum_list (dropna xs)"

text \<open>Python's \<open>/\<close>, which raises on a zero divisor.\<close>

definition truediv :: "rat \<Rightarrow> rat \<Rightarrow> error + rat" where
  "truediv a b = (if b = 0 then Inl ZeroDivisionError else Inr (a / b))"

record summary =
  total_crashes :: nat
  total_injured :: rat
  total_killed :: rat
  avg_injured :: rat
  avg_killed :: rat

definition column_total :: "dataframe \<Rightarrow> column \<Rightarrow> column \<Rightarrow> error + rat" where
  "column_total df c c' =
     (if c \<in> set (columns df) then andThen (num_column df c) (\<lambda>xs. Inr (nansum xs))
      else if c' \<in> set (columns df) then andThen (num_column df c') (\<lambda>xs. Inr (nansum xs))
      else Inr 0)"

text \<open>The body of the \<open>try\<close> block of \<open>calculate_summary_stats\<close>, up to the numbers shown.\<close>

definition summary_numbers :: "dataframe \<Rightarrow> error + summary" where
  "summary_numbers df =
     (let n = length (rows df) in
      andThen (column_total df TOTAL_INJURED NUMBER_OF_PERSONS_INJURED) (\<lambda>ti.
      andThen (column_total df TOTAL_KILLED NUMBER_OF_PERSONS_KILLED) (\<lambda>tk.
      andThen (if 0 < n then truediv ti (of_nat n) else Inr 0) (\<lambda>ai.
      andThen (if 0 < n then truediv tk (of_nat n) else Inr 0) (\<lambda>ak.
        Inr \<lparr>total_crashes = n, total_injured = ti, total_killed = tk,
             avg_injured = ai, avg_killed = ak\<rparr>)))))"

text \<open>
  An exception inside the \<open>try\<close> block is printed and the function returns no cards:
  \<open>None\<close>. Otherwise it returns the cards showing the numbers.
\<close>

definition calculate_summary_stats :: "dataframe \<Rightarrow> summary option" where
  "calculate_summary_stats df =
     (case summary_numbers df of Inl e \<Rightarrow> None | Inr s \<Rightarrow> Some s)"

text \<open>
  The rows drawn on the map (chart 6 of \<open>create_all_visualizations\<close>), with their
  \<open>size\<close>; the plotly call that draws them is not modelled. \<open>DataFrame.sample\<close>
  belongs to pandas and is a parameter here: \<open>sample g seed n xs\<close> draws \<open>n\<close> rows of
  \<open>xs\<close>, where \<open>seed\<close> is the \<open>random_state\<close> argument and \<open>g\<close> is the state of the global
  generator, which pandas consults when no \<open>random_state\<close> is given.
\<close>

type_synonym sampler = "nat \<Rightarrow> nat option \<Rightarrow> nat \<Rightarrow> crash list \<Rightarrow> crash list"

definition has_location :: "crash \<Rightarrow> bool" where
  "has_location r =
     (num_cell r LATITUDE \<noteq> None \<and> num_cell r LONGITUDE \<noteq> None
      \<and> num_cell r LATITUDE \<noteq> Some 0 \<and> num_cell r LONGITUDE \<noteq> Some 0)"

text \<open>The \<open>size\<close> column; arithmetic on a missing cell gives a missing cell.\<close>

definition point_size :: "dataframe \<Rightarrow> crash \<Rightarrow> rat option" where
  "point_size df r =
     (if TOTAL_INJURED \<in> set (columns df)
      then (case num_cell r TOTAL_INJURED of
              None \<Rightarrow> None
            | Some i \<Rightarrow>
                (if TOTAL_KILLED \<in> set (columns df)
                 then (case num_cell r TOTAL_KILLED of
                         None \<Rightarrow> None
                       | Some k \<Rightarrow> Some (i + k * 10 + 1))
                 else Some (i + 0 * 10 + 1)))
      else Some 3)"

definition map_points :: "sampler \<Rightarrow> nat \<Rightarrow> dataframe \<Rightarrow> (crash \<times> rat option) list option" where
  "map_points sample g df =
     (if LATITUDE \<in> set (columns df) \<and> LONGITUDE \<in> set (columns df)
      then (let map_df = filter has_location (rows df) in
            if 0 < length map_df
            then (let max_points = 2000;
                      map_df = (if max_points < length map_df
                                then sample g (Some 42) max_points map_df else map_df)
                  in Some (map (\<lambda>r. (r, point_size df r)) map_df))
            else None)
      else None)"

text \<open>
  What pandas documents for \<open>sample\<close> without replacement: asked for \<open>n\<close> rows of a
  frame that has at least \<open>n\<close>, it returns the rows at \<open>n\<close> distinct positions of the
  frame, and with a \<open>random_state\<close> the draw does not depend on the global generator.
\<close>

definition sampler_contract :: "sampler \<Rightarrow> bool" where
  "sampler_contract sample =
     (\<forall>g g' seed n xs. n \<le> length xs \<longrightarrow>
        (\<exists>is. length is = n \<and> distinct is \<and> set is \<subseteq> {..<length xs}
           \<and> sample g (Some seed) n xs = map (nth xs) is)
        \<and> sample g (Some seed) n xs = sample g' (Some seed) n xs)"

text \<open>
  The series of chart 7, the top contributing factors (\<open>factor_counts\<close>); the plotly
  call that draws it is not modelled. A missing second column raises inside the
  \<open>try\<close> block, and the chart is left out: \<open>None\<close>, as it is when no factor is left
  to count.
\<close>

definition factor_series :: "dataframe \<Rightarrow> (string \<times> nat) list option" where
  "factor_series df =
     (if CONTRIBUTING_FACTOR_VEHICLE_1 \<in> set (columns df)
      then (case andThen (text_column df CONTRIBUTING_FACTOR_VEHICLE_1) (\<lambda>c1.
                 andThen (text_column df CONTRIBUTING_FACTOR_VEHICLE_2) (\<lambda>c2.
                   Inr (dropna (c1 @ c2)))) of
              Inl e \<Rightarrow> None
            | Inr pooled \<Rightarrow>
                (let factors = filter (\<lambda>f. f \<noteq> ''Unspecified'') pooled in
                 if 0 < length factors then Some (take 10 (value_counts factors)) else None))
      else None)"

section \<open>Notions used in the statements\<close>

text \<open>A field is absent or the sentinel.\<close>

definition unset :: "pyval \<Rightarrow> bool" where
  "unset v = (v = PNone \<or> v = PStr ''All'')"

text \<open>
  A criteria value constrains its dimension unless it is absent, empty, zero or the
  sentinel.
\<close>

definition constraining :: "pyval \<Rightarrow> bool" where
  "constraining v = (v \<noteq> PNone \<and> v \<noteq> PStr [] \<and> v \<noteq> PInt 0 \<and> v \<noteq> PStr ''All'')"

text \<open>
  A record satisfies the criteria: it carries the borough, the numeric year, the vehicle
  type (in either vehicle column) and the contributing factor (in either factor column)
  that constrain, and for the injury type Pedestrian, Cyclist or Motorist it counts an
  injured or a killed person of that class. A year that is not a number and any other
  injury type ask nothing of the record.
\<close>

definition satisfies :: "filters \<Rightarrow> crash \<Rightarrow> bool" where
  "satisfies f r =
     ((constraining (borough f) \<longrightarrow> text_eq (text_cell r BOROUGH) (borough f))
      \<and> (constraining (year f) \<and> is_number (year f) \<longrightarrow> num_eq (num_cell r CRASH_YEAR) (year f))
      \<and> (constraining (vehicle_type f) \<longrightarrow>
            text_eq (text_cell r VEHICLE_TYPE_CODE_1) (vehicle_type f)
            \<or> text_eq (text_cell r VEHICLE_TYPE_CODE_2) (vehicle_type f))
      \<and> (constraining (contributing_factor f) \<longrightarrow>
            text_eq (text_cell r CONTRIBUTING_FACTOR_VEHICLE_1) (contributing_factor f)
            \<or> text_eq (text_cell r CONTRIBUTING_FACTOR_VEHICLE_2) (contributing_factor f))
      \<and> (injury_type f = PStr ''Pedestrian'' \<longrightarrow>
            gt0 (num_cell r NUMBER_OF_PEDESTRIANS_INJURED)
            \<or> gt0 (num_cell r NUMBER_OF_PEDESTRIANS_KILLED))
      \<and> (injury_type f = PStr ''Cyclist'' \<longrightarrow>
            gt0 (num_cell r NUMBER_OF_CYCLIST_INJURED)
            \<or> gt0 (num_cell r NUMBER_OF_CYCLIST_KILLED))
      \<and> (injury_type f = PStr ''Motorist'' \<longrightarrow>
            gt0 (num_cell r NUMBER_OF_MOTORIST_INJURED)
            \<or> gt0 (num_cell r NUMBER_OF_MOTORIST_KILLED)))"

text \<open>
  The pooled count of a factor: the number of its occurrences in the first factor column
  plus the number of its occurrences in the second.
\<close>

definition pooled_count :: "dataframe \<Rightarrow> string \<Rightarrow> nat" where
  "pooled_count df f =
     count_list (map (\<lambda>r. text_cell r CONTRIBUTING_FACTOR_VEHICLE_1) (rows df)) (Some f)
     + count_list (map (\<lambda>r. text_cell r CONTRIBUTING_FACTOR_VEHICLE_2) (rows df)) (Some f)"

section \<open>Sample data\<close>

text \<open>Small data frames, criteria and a sampler on which the theorems are instantiated.\<close>

definition blank :: crash where
  "blank = \<lparr>text_cell = (\<lambda>c. None), num_cell = (\<lambda>c. None)\<rparr>"

definition all_columns :: "column list" where
  "all_columns =
     [BOROUGH, CRASH_YEAR, VEHICLE_TYPE_CODE_1, VEHICLE_TYPE_CODE_2,
      CONTRIBUTING_FACTOR_VEHICLE_1, CONTRIBUTING_FACTOR_VEHICLE_2,
      NUMBER_OF_PEDESTRIANS_INJURED, NUMBER_OF_PEDESTRIANS_KILLED,
      NUMBER_OF_CYCLIST_INJURED, NUMBER_OF_CYCLIST_KILLED,
      NUMBER_OF_MOTORIST_INJURED, NUMBER_OF_MOTORIST_KILLED,
      NUMBER_OF_PERSONS_INJURED, NUMBER_OF_PERSONS_KILLED,
      TOTAL_INJURED, TOTAL_KILLED, LATITUDE, LONGITUDE]"

definition crash_row :: "string \<Rightarrow> rat \<Rightarrow> crash" where
  "crash_row b y =
     \<lparr>text_cell = (\<lambda>c. if c = BOROUGH then Some b else None),
      num_cell = (\<lambda>c. if c = CRASH_YEAR then Some y else None)\<rparr>"

definition sample_df :: dataframe where
  "sample_df = \<lparr>columns = all_columns,
     rows = [crash_row ''BROOKLYN'' 2021, crash_row ''QUEENS'' 2022, crash_row ''BROOKLYN'' 2021]\<rparr>"

definition no_filters :: filters where
  "no_filters = \<lparr>borough = PNone, year = PNone, vehicle_type = PNone,
     contributing_factor = PNone, injury_type = PNone\<rparr>"

definition brooklyn_2021 :: filters where
  "brooklyn_2021 = \<lparr>borough = PStr ''BROOKLYN'', year = PInt 2021, vehicle_type = PStr ''All'',
     contributing_factor = PNone, injury_type = PNone\<rparr>"

definition brooklyn_loose :: filters where
  "brooklyn_loose = \<lparr>borough = PStr ''BROOKLYN'', year = PStr ''2022'', vehicle_type = PStr ''All'',
     contributing_factor = PStr [], injury_type = PStr ''Driver''\<rparr>"

definition factor_row :: "string \<Rightarrow> crash" where
  "factor_row x =
     \<lparr>text_cell = (\<lambda>c. if c = CONTRIBUTING_FACTOR_VEHICLE_1 \<or> c = VEHICLE_TYPE_CODE_1
                         then Some x else None),
      num_cell = (\<lambda>c. None)\<rparr>"

definition first_factor_df :: dataframe where
  "first_factor_df = \<lparr>columns = [CONTRIBUTING_FACTOR_VEHICLE_1], rows = [factor_row ''Unsafe Speed'']\<rparr>"

definition first_vehicle_df :: dataframe where
  "first_vehicle_df = \<lparr>columns = [VEHICLE_TYPE_CODE_1], rows = [factor_row ''Sedan'']\<rparr>"

definition padded_factor_df :: dataframe where
  "padded_factor_df = \<lparr>columns = [CONTRIBUTING_FACTOR_VEHICLE_1],
     rows = [factor_row (CHR 0xA0 # ''Unsafe Speed ''), factor_row (CHR 0xA0 # ''ab'' @ [CHR 0xA0]),
             factor_row (''123'' @ [CHR 0xE9])]\<rparr>"

definition bare_df :: dataframe where
  "bare_df = \<lparr>columns = [LATITUDE], rows = [blank]\<rparr>"

definition no_rows_df :: dataframe where
  "no_rows_df = \<lparr>columns = all_columns, rows = []\<rparr>"

definition injured_row :: "rat option \<Rightarrow> crash" where
  "injured_row n =
     \<lparr>text_cell = (\<lambda>c. None), num_cell = (\<lambda>c. if c = TOTAL_INJURED then n else None)\<rparr>"

definition injured_df :: dataframe where
  "injured_df = \<lparr>columns = [TOTAL_INJURED],
     rows = [injured_row (Some 1), injured_row (Some 2), injured_row None, injured_row (Some 0)]\<rparr>"

definition located_row :: crash where
  "located_row =
     \<lparr>text_cell = (\<lambda>c. None),
      num_cell = (\<lambda>c. if c = LATITUDE then Some (407 / 10)
                       else if c = LONGITUDE then Some (- 74) else None)\<rparr>"

definition big_df :: dataframe where
  "big_df = \<lparr>columns = all_columns, rows = replicate 3000 located_row\<rparr>"

definition window_sample :: sampler where
  "window_sample g seed n xs =
     (let k = (case seed of None \<Rightarrow> g | Some s \<Rightarrow> s) mod (length xs - n + 1)
      in take n (drop k xs))"

definition two_factors :: "string option \<Rightarrow> string option \<Rightarrow> crash" where
  "two_factors a b =
     \<lparr>text_cell = (\<lambda>c. if c = CONTRIBUTING_FACTOR_VEHICLE_1 then a
                        else if c = CONTRIBUTING_FACTOR_VEHICLE_2 then b else None),
      num_cell = (\<lambda>c. None)\<rparr>"

definition factors_df :: dataframe where
  "factors_df = \<lparr>columns = all_columns,
     rows = [two_factors (Some ''Unsafe Speed'') (Some ''Unspecified''),
             two_factors (Some ''Alcohol Involvement'') (Some ''Unsafe Speed''),
             two_factors (Some ''Unspecified'') None]\<rparr>"

section \<open>Properties of the filter engine\<close>

lemma select_Nil: "select [] P df = Inr (df\<lparr>rows := filter P (rows df)\<rparr>)"
  by (simp add: select_def)

lemma select_result:
  "select cs P df = Inr d \<Longrightarrow> d = df\<lparr>rows := filter P (rows df)\<rparr> \<and> set cs \<subseteq> set (columns df)"
  by (auto simp: select_def find_None_iff split: option.splits)

lemma select_present:
  "set cs \<subseteq> set (columns df) \<Longrightarrow> select cs P df = Inr (df\<lparr>rows := filter P (rows df)\<rparr>)"
  by (auto simp: select_def find_None_iff split: option.splits)

lemma unset_inactive: "unset v \<Longrightarrow> \<not> active v"
  by (auto simp: unset_def active_def)

text \<open>
  C1. With every field of the criteria absent or equal to "All", apply_filters returns
  the data frame it was given: same rows, same order, same columns.
\<close>

theorem apply_filters_identity:
  assumes "unset (borough f)" "unset (year f)" "unset (vehicle_type f)"
    "unset (contributing_factor f)" "unset (injury_type f)"
  shows "apply_filters df f = Inr df"
  using assms
  by (simp add: apply_filters_def andThen_def borough_filter_def year_filter_def
      vehicle_filter_def factor_filter_def injury_filter_def unset_inactive)

theorem apply_filters_identity_witness:
  "unset (borough (no_filters\<lparr>year := PStr ''All''\<rparr>))
   \<and> unset (year (no_filters\<lparr>year := PStr ''All''\<rparr>))
   \<and> unset (vehicle_type (no_filters\<lparr>year := PStr ''All''\<rparr>))
   \<and> unset (contributing_factor (no_filters\<lparr>year := PStr ''All''\<rparr>))
   \<and> unset (injury_type (no_filters\<lparr>year := PStr ''All''\<rparr>))
   \<and> apply_filters sample_df (no_filters\<lparr>year := PStr ''All''\<rparr>) = Inr sample_df"
proof -
  have u: "unset (borough (no_filters\<lparr>year := PStr ''All''\<rparr>))"
    "unset (year (no_filters\<lparr>year := PStr ''All''\<rparr>))"
    "unset (vehicle_type (no_filters\<lparr>year := PStr ''All''\<rparr>))"
    "unset (contributing_factor (no_filters\<lparr>year := PStr ''All''\<rparr>))"
    "unset (injury_type (no_filters\<lparr>year := PStr ''All''\<rparr>))"
    by (simp_all add: unset_def no_filters_def)
  from u apply_filters_identity [OF u, of sample_df] show ?thesis by simp
qed

lemma find_app:
  "find Q (xs @ ys) = (case find Q xs of None \<Rightarrow> find Q ys | Some x \<Rightarrow> Some x)"
  by (induction xs) auto

lemma select_andThen:
  "andThen (select cs P df) (select cs' P') = select (cs @ cs') (\<lambda>r. P r \<and> P' r) df"
  by (simp add: select_def andThen_def find_app split: option.splits)

lemma select_always: "select [] (\<lambda>r. True) df = Inr df"
  by (simp add: select_def)

lemma select_idem: "select cs P df = Inr d \<Longrightarrow> select cs P d = Inr d"
  by (auto simp: select_def split: option.splits)

lemma Inr_is_select: "\<exists>cs P. \<forall>df. Inr df = select cs P df"
proof (intro exI allI)
  fix df show "Inr df = select [] (\<lambda>r. True) df" by (simp add: select_def)
qed

lemma select_is_select: "\<exists>cs' P'. \<forall>df. select cs P df = select cs' P' df"
  by blast

lemma borough_filter_select: "\<exists>cs P. \<forall>df. borough_filter f df = select cs P df"
  unfolding borough_filter_def
  by (cases "active (borough f)") (simp_all add: Inr_is_select select_is_select)

lemma year_filter_select: "\<exists>cs P. \<forall>df. year_filter f df = select cs P df"
  unfolding year_filter_def
  by (cases "active (year f)"; cases "is_number (year f)")
    (simp_all add: Inr_is_select select_is_select)

lemma vehicle_filter_select: "\<exists>cs P. \<forall>df. vehicle_filter f df = select cs P df"
  unfolding vehicle_filter_def
  by (cases "active (vehicle_type f)") (simp_all add: Inr_is_select select_is_select)

lemma factor_filter_select: "\<exists>cs P. \<forall>df. factor_filter f df = select cs P df"
  unfolding factor_filter_def
  by (cases "active (contributing_factor f)") (simp_all add: Inr_is_select select_is_select)

lemma injury_filter_select: "\<exists>cs P. \<forall>df. injury_filter f df = select cs P df"
  unfolding injury_filter_def
  by (cases "active (injury_type f)"; cases "injury_type f = PStr ''Pedestrian''";
      cases "injury_type f = PStr ''Cyclist''"; cases "injury_type f = PStr ''Motorist''")
    (simp_all add: Inr_is_select select_is_select)

lemma apply_filters_select: "\<exists>cs P. \<forall>df. apply_filters df f = select cs P df"
proof -
  obtain c1 P1 where 1: "borough_filter f = select c1 P1"
    using borough_filter_select by blast
  obtain c2 P2 where 2: "year_filter f = select c2 P2"
    using year_filter_select by blast
  obtain c3 P3 where 3: "vehicle_filter f = select c3 P3"
    using vehicle_filter_select by blast
  obtain c4 P4 where 4: "factor_filter f = select c4 P4"
    using factor_filter_select by blast
  obtain c5 P5 where 5: "injury_filter f = select c5 P5"
    using injury_filter_select by blast
  show ?thesis
    unfolding apply_filters_def 1 2 3 4 5 select_andThen by blast
qed

lemma select_rows:
  "select cs P df = Inr d \<Longrightarrow> rows d = filter P (rows df) \<and> columns d = columns df"
  by (auto simp: select_def split: option.splits)

lemma andThen_Inr: "andThen m k = Inr y \<Longrightarrow> \<exists>x. m = Inr x \<and> k x = Inr y"
  by (cases m) (simp_all add: andThen_def)

lemma apply_filters_stages:
  assumes "apply_filters df f = Inr d"
  obtains d1 d2 d3 d4 where "borough_filter f df = Inr d1" "year_filter f d1 = Inr d2"
    "vehicle_filter f d2 = Inr d3" "factor_filter f d3 = Inr d4" "injury_filter f d4 = Inr d"
  using assms unfolding apply_filters_def by (blast dest: andThen_Inr)

lemma filters_present:
  assumes "{BOROUGH, CRASH_YEAR, VEHICLE_TYPE_CODE_1, VEHICLE_TYPE_CODE_2,
      CONTRIBUTING_FACTOR_VEHICLE_1, CONTRIBUTING_FACTOR_VEHICLE_2,
      NUMBER_OF_PEDESTRIANS_INJURED, NUMBER_OF_PEDESTRIANS_KILLED,
      NUMBER_OF_CYCLIST_INJURED, NUMBER_OF_CYCLIST_KILLED,
      NUMBER_OF_MOTORIST_INJURED, NUMBER_OF_MOTORIST_KILLED} \<subseteq> set (columns df)"
  shows "\<exists>d. apply_filters df f = Inr d"
proof -
  have sel: "select cs P x = Inr (x\<lparr>rows := filter P (rows x)\<rparr>)"
    if "set cs \<subseteq> set (columns df)" "columns x = columns df" for cs P x
    using that by (intro select_present) simp
  have b: "\<exists>d. borough_filter f x = Inr d \<and> columns d = columns df"
    if "columns x = columns df" for x
    using that assms by (simp add: borough_filter_def sel)
  have y: "\<exists>d. year_filter f x = Inr d \<and> columns d = columns df"
    if "columns x = columns df" for x
    using that assms by (simp add: year_filter_def sel)
  have v: "\<exists>d. vehicle_filter f x = Inr d \<and> columns d = columns df"
    if "columns x = columns df" for x
    using that assms by (simp add: vehicle_filter_def sel)
  have c: "\<exists>d. factor_filter f x = Inr d \<and> columns d = columns df"
    if "columns x = columns df" for x
    using that assms by (simp add: factor_filter_def sel)
  have i: "\<exists>d. injury_filter f x = Inr d \<and> columns d = columns df"
    if "columns x = columns df" for x
    using that assms by (simp add: injury_filter_def sel)
  from b obtain d1 where 1: "borough_filter f df = Inr d1" "columns d1 = columns df" by blast
  from y [OF 1(2)] obtain d2 where 2: "year_filter f d1 = Inr d2" "columns d2 = columns df"
    by blast
  from v [OF 2(2)] obtain d3 where 3: "vehicle_filter f d2 = Inr d3" "columns d3 = columns df"
    by blast
  from c [OF 3(2)] obtain d4 where 4: "factor_filter f d3 = Inr d4" "columns d4 = columns df"
    by blast
  from i [OF 4(2)] obtain d5 where 5: "injury_filter f d4 = Inr d5" by blast
  from 1 2 3 4 5 show ?thesis by (simp add: apply_filters_def andThen_def)
qed

lemma year_not_number:
  "\<not> is_number (year f) \<Longrightarrow> apply_filters df f = apply_filters df (f\<lparr>year := PNone\<rparr>)"
proof -
  assume n: "\<not> is_number (year f)"
  have "year_filter f = year_filter (f\<lparr>year := PNone\<rparr>)"
    using n by (intro ext) (simp add: year_filter_def active_def)
  moreover have "borough_filter f = borough_filter (f\<lparr>year := PNone\<rparr>)"
    "vehicle_filter f = vehicle_filter (f\<lparr>year := PNone\<rparr>)"
    "factor_filter f = factor_filter (f\<lparr>year := PNone\<rparr>)"
    "injury_filter f = injury_filter (f\<lparr>year := PNone\<rparr>)"
    by (intro ext; simp add: borough_filter_def vehicle_filter_def factor_filter_def
        injury_filter_def)+
  ultimately show ?thesis by (simp add: apply_filters_def)
qed

lemma injury_not_listed:
  assumes "injury_type f \<noteq> PStr ''Pedestrian''" "injury_type f \<noteq> PStr ''Cyclist''"
    "injury_type f \<noteq> PStr ''Motorist''"
  shows "apply_filters df f = apply_filters df (f\<lparr>injury_type := PNone\<rparr>)"
proof -
  have "injury_filter f = injury_filter (f\<lparr>injury_type := PNone\<rparr>)"
    using assms by (intro ext) (simp add: injury_filter_def active_def)
  moreover have "borough_filter f = borough_filter (f\<lparr>injury_type := PNone\<rparr>)"
    "vehicle_filter f = vehicle_filter (f\<lparr>injury_type := PNone\<rparr>)"
    "factor_filter f = factor_filter (f\<lparr>injury_type := PNone\<rparr>)"
    "year_filter f = year_filter (f\<lparr>injury_type := PNone\<rparr>)"
    by (intro ext; simp add: borough_filter_def vehicle_filter_def factor_filter_def
        year_filter_def)+
  ultimately show ?thesis by (simp add: apply_filters_def)
qed

lemma apply_brooklyn_2021:
  "apply_filters sample_df brooklyn_2021
     = Inr (sample_df\<lparr>rows := [crash_row ''BROOKLYN'' 2021, crash_row ''BROOKLYN'' 2021]\<rparr>)"
  by (simp add: apply_filters_def andThen_def borough_filter_def year_filter_def
      vehicle_filter_def factor_filter_def injury_filter_def active_def select_def
      brooklyn_2021_def sample_df_def all_columns_def crash_row_def)

lemma sample_options:
  "get_dropdown_options sample_df
     = Inr (initial_options\<lparr>boroughs_opt := [''BROOKLYN'', ''QUEENS''], years := [2021, 2022]\<rparr>)"
  by code_simp

text \<open>
  C5. apply_filters is idempotent: applying the same criteria to the subset it returned
  returns that subset again.
\<close>

theorem apply_filters_idempotent:
  assumes "apply_filters df f = Inr d"
  shows "apply_filters d f = Inr d"
proof -
  obtain cs P where "\<And>x. apply_filters x f = select cs P x"
    using apply_filters_select by blast
  with assms show ?thesis by (simp add: select_idem)
qed

theorem apply_filters_idempotent_witness:
  "apply_filters sample_df brooklyn_2021
     = Inr (sample_df\<lparr>rows := [crash_row ''BROOKLYN'' 2021, crash_row ''BROOKLYN'' 2021]\<rparr>)
   \<and> apply_filters (sample_df\<lparr>rows := [crash_row ''BROOKLYN'' 2021, crash_row ''BROOKLYN'' 2021]\<rparr>)
        brooklyn_2021
     = Inr (sample_df\<lparr>rows := [crash_row ''BROOKLYN'' 2021, crash_row ''BROOKLYN'' 2021]\<rparr>)"
  using apply_filters_idempotent [OF apply_brooklyn_2021] apply_brooklyn_2021 by simp

text \<open>
  C2, as stated, fails: a borough that is in no record, hence outside the Option Set,
  is not ignored. It is compared with every record and none is kept, whereas the
  remaining constraints alone keep them all.
\<close>

theorem out_of_option_set_counterexample:
  "get_dropdown_options sample_df
     = Inr (initial_options\<lparr>boroughs_opt := [''BROOKLYN'', ''QUEENS''], years := [2021, 2022]\<rparr>)
   \<and> ''ATLANTIS'' \<notin> set [''BROOKLYN'', ''QUEENS'']
   \<and> apply_filters sample_df (no_filters\<lparr>borough := PStr ''ATLANTIS''\<rparr>)
       = Inr (sample_df\<lparr>rows := []\<rparr>)
   \<and> apply_filters sample_df ((no_filters\<lparr>borough := PStr ''ATLANTIS''\<rparr>)\<lparr>borough := PNone\<rparr>)
       = Inr sample_df
   \<and> rows sample_df \<noteq> []"
proof -
  have "apply_filters sample_df (no_filters\<lparr>borough := PStr ''ATLANTIS''\<rparr>)
       = Inr (sample_df\<lparr>rows := []\<rparr>)"
    by (simp add: apply_filters_def andThen_def borough_filter_def year_filter_def
      vehicle_filter_def factor_filter_def injury_filter_def active_def select_def
      no_filters_def sample_df_def all_columns_def crash_row_def)
  moreover have "apply_filters sample_df
      ((no_filters\<lparr>borough := PStr ''ATLANTIS''\<rparr>)\<lparr>borough := PNone\<rparr>) = Inr sample_df"
    by (simp add: apply_filters_def andThen_def borough_filter_def year_filter_def
      vehicle_filter_def factor_filter_def injury_filter_def active_def no_filters_def)
  moreover have "rows sample_df \<noteq> []" by (simp add: sample_df_def)
  ultimately show ?thesis using sample_options by simp
qed

lemma active_constraining: "active v = constraining v"
  by (cases v) (auto simp: active_def constraining_def)

lemma same_frame: "x\<lparr>rows := filter (\<lambda>r. True) (rows x)\<rparr> = x"
  by simp

lemma borough_stage:
  "borough_filter f x = Inr y \<Longrightarrow>
   y = x\<lparr>rows := filter (\<lambda>r. constraining (borough f) \<longrightarrow>
                  text_eq (text_cell r BOROUGH) (borough f)) (rows x)\<rparr>"
  by (cases "constraining (borough f)")
    (auto simp: borough_filter_def active_constraining dest: select_result)

lemma year_stage:
  "year_filter f x = Inr y \<Longrightarrow>
   y = x\<lparr>rows := filter (\<lambda>r. constraining (year f) \<and> is_number (year f) \<longrightarrow>
                  num_eq (num_cell r CRASH_YEAR) (year f)) (rows x)\<rparr>"
  by (cases "constraining (year f) \<and> is_number (year f)")
    (auto simp: year_filter_def active_constraining dest: select_result split: if_splits)

lemma vehicle_stage:
  "vehicle_filter f x = Inr y \<Longrightarrow>
   y = x\<lparr>rows := filter (\<lambda>r. constraining (vehicle_type f) \<longrightarrow>
            text_eq (text_cell r VEHICLE_TYPE_CODE_1) (vehicle_type f)
            \<or> text_eq (text_cell r VEHICLE_TYPE_CODE_2) (vehicle_type f)) (rows x)\<rparr>"
  by (cases "constraining (vehicle_type f)")
    (auto simp: vehicle_filter_def active_constraining dest: select_result)

lemma factor_stage:
  "factor_filter f x = Inr y \<Longrightarrow>
   y = x\<lparr>rows := filter (\<lambda>r. constraining (contributing_factor f) \<longrightarrow>
            text_eq (text_cell r CONTRIBUTING_FACTOR_VEHICLE_1) (contributing_factor f)
            \<or> text_eq (text_cell r CONTRIBUTING_FACTOR_VEHICLE_2) (contributing_factor f))
          (rows x)\<rparr>"
  by (cases "constraining (contributing_factor f)")
    (auto simp: factor_filter_def active_constraining dest: select_result)

lemma injury_stage:
  assumes "injury_filter f x = Inr y"
  shows "y = x\<lparr>rows := filter (\<lambda>r.
        (injury_type f = PStr ''Pedestrian'' \<longrightarrow>
            gt0 (num_cell r NUMBER_OF_PEDESTRIANS_INJURED)
            \<or> gt0 (num_cell r NUMBER_OF_PEDESTRIANS_KILLED))
      \<and> (injury_type f = PStr ''Cyclist'' \<longrightarrow>
            gt0 (num_cell r NUMBER_OF_CYCLIST_INJURED)
            \<or> gt0 (num_cell r NUMBER_OF_CYCLIST_KILLED))
      \<and> (injury_type f = PStr ''Motorist'' \<longrightarrow>
            gt0 (num_cell r NUMBER_OF_MOTORIST_INJURED)
            \<or> gt0 (num_cell r NUMBER_OF_MOTORIST_KILLED))) (rows x)\<rparr>"
proof -
  have a: "active (PStr ''Pedestrian'')" "active (PStr ''Cyclist'')" "active (PStr ''Motorist'')"
    by (simp_all add: active_def)
  consider "injury_type f = PStr ''Pedestrian''" | "injury_type f = PStr ''Cyclist''"
    | "injury_type f = PStr ''Motorist''"
    | "injury_type f \<noteq> PStr ''Pedestrian''" "injury_type f \<noteq> PStr ''Cyclist''"
      "injury_type f \<noteq> PStr ''Motorist''"
    by blast
  then show ?thesis
  proof cases
    case 1
    with assms a show ?thesis by (auto simp: injury_filter_def dest: select_result)
  next
    case 2
    with assms a show ?thesis by (auto simp: injury_filter_def dest: select_result)
  next
    case 3
    with assms a show ?thesis by (auto simp: injury_filter_def dest: select_result)
  next
    case 4
    with assms show ?thesis by (auto simp: injury_filter_def split: if_splits)
  qed
qed

lemma apply_filters_rows:
  assumes "apply_filters df f = Inr d"
  shows "d = df\<lparr>rows := filter (satisfies f) (rows df)\<rparr>"
proof -
  from assms obtain d1 d2 d3 d4 where s: "borough_filter f df = Inr d1"
    "year_filter f d1 = Inr d2" "vehicle_filter f d2 = Inr d3" "factor_filter f d3 = Inr d4"
    "injury_filter f d4 = Inr d" by (rule apply_filters_stages)
  have "filter (satisfies f) (rows df) = filter (\<lambda>r.
      ((((constraining (borough f) \<longrightarrow> text_eq (text_cell r BOROUGH) (borough f))
      \<and> (constraining (year f) \<and> is_number (year f) \<longrightarrow> num_eq (num_cell r CRASH_YEAR) (year f)))
      \<and> (constraining (vehicle_type f) \<longrightarrow>
            text_eq (text_cell r VEHICLE_TYPE_CODE_1) (vehicle_type f)
            \<or> text_eq (text_cell r VEHICLE_TYPE_CODE_2) (vehicle_type f)))
      \<and> (constraining (contributing_factor f) \<longrightarrow>
            text_eq (text_cell r CONTRIBUTING_FACTOR_VEHICLE_1) (contributing_factor f)
            \<or> text_eq (text_cell r CONTRIBUTING_FACTOR_VEHICLE_2) (contributing_factor f)))
      \<and> (injury_type f = PStr ''Pedestrian'' \<longrightarrow>
            gt0 (num_cell r NUMBER_OF_PEDESTRIANS_INJURED)
            \<or> gt0 (num_cell r NUMBER_OF_PEDESTRIANS_KILLED))
      \<and> (injury_type f = PStr ''Cyclist'' \<longrightarrow>
            gt0 (num_cell r NUMBER_OF_CYCLIST_INJURED)
            \<or> gt0 (num_cell r NUMBER_OF_CYCLIST_KILLED))
      \<and> (injury_type f = PStr ''Motorist'' \<longrightarrow>
            gt0 (num_cell r NUMBER_OF_MOTORIST_INJURED)
            \<or> gt0 (num_cell r NUMBER_OF_MOTORIST_KILLED))) (rows df)"
    by (rule filter_cong) (auto simp: satisfies_def)
  then show ?thesis
    unfolding injury_stage [OF s(5)] factor_stage [OF s(4)] vehicle_stage [OF s(3)]
      year_stage [OF s(2)] borough_stage [OF s(1)]
    by simp
qed

lemma satisfies_brooklyn_loose:
  "filter (satisfies brooklyn_loose) (rows sample_df)
     = [crash_row ''BROOKLYN'' 2021, crash_row ''BROOKLYN'' 2021]"
  "filter (satisfies (brooklyn_loose\<lparr>year := PNone\<rparr>)) (rows sample_df)
     = [crash_row ''BROOKLYN'' 2021, crash_row ''BROOKLYN'' 2021]"
  "filter (satisfies (brooklyn_loose\<lparr>injury_type := PNone\<rparr>)) (rows sample_df)
     = [crash_row ''BROOKLYN'' 2021, crash_row ''BROOKLYN'' 2021]"
  by (simp_all add: satisfies_def constraining_def brooklyn_loose_def sample_df_def crash_row_def)

text \<open>
  C2, amended. On a data frame that has the columns the filters read, apply_filters
  returns for every criteria record, and what it returns, whenever it returns, is the
  frame with exactly the records that satisfy the criteria, in their original order. A
  field that is absent, empty, zero or "All" does not constrain; neither does a year that
  is not a number nor an injury type other than Pedestrian, Cyclist and Motorist: the
  result is that of the remaining constraints alone. A borough, a numeric year, a vehicle
  type and a contributing factor that constrain are compared with the records as they
  are, in the Option Set or not, so a value carried by no record leaves the subset empty.
\<close>

theorem apply_filters_exact_match:
  "({BOROUGH, CRASH_YEAR, VEHICLE_TYPE_CODE_1, VEHICLE_TYPE_CODE_2,
      CONTRIBUTING_FACTOR_VEHICLE_1, CONTRIBUTING_FACTOR_VEHICLE_2,
      NUMBER_OF_PEDESTRIANS_INJURED, NUMBER_OF_PEDESTRIANS_KILLED,
      NUMBER_OF_CYCLIST_INJURED, NUMBER_OF_CYCLIST_KILLED,
      NUMBER_OF_MOTORIST_INJURED, NUMBER_OF_MOTORIST_KILLED} \<subseteq> set (columns df)
      \<longrightarrow> apply_filters df f = Inr (df\<lparr>rows := filter (satisfies f) (rows df)\<rparr>))
   \<and> (\<forall>d. apply_filters df f = Inr d \<longrightarrow> d = df\<lparr>rows := filter (satisfies f) (rows df)\<rparr>)
   \<and> (\<not> is_number (year f) \<longrightarrow> apply_filters df f = apply_filters df (f\<lparr>year := PNone\<rparr>))
   \<and> (injury_type f \<noteq> PStr ''Pedestrian'' \<and> injury_type f \<noteq> PStr ''Cyclist''
        \<and> injury_type f \<noteq> PStr ''Motorist''
      \<longrightarrow> apply_filters df f = apply_filters df (f\<lparr>injury_type := PNone\<rparr>))"
proof (intro conjI impI allI)
  assume "{BOROUGH, CRASH_YEAR, VEHICLE_TYPE_CODE_1, VEHICLE_TYPE_CODE_2,
      CONTRIBUTING_FACTOR_VEHICLE_1, CONTRIBUTING_FACTOR_VEHICLE_2,
      NUMBER_OF_PEDESTRIANS_INJURED, NUMBER_OF_PEDESTRIANS_KILLED,
      NUMBER_OF_CYCLIST_INJURED, NUMBER_OF_CYCLIST_KILLED,
      NUMBER_OF_MOTORIST_INJURED, NUMBER_OF_MOTORIST_KILLED} \<subseteq> set (columns df)"
  then obtain d where d: "apply_filters df f = Inr d" using filters_present by blast
  then have "d = df\<lparr>rows := filter (satisfies f) (rows df)\<rparr>" by (rule apply_filters_rows)
  with d show "apply_filters df f = Inr (df\<lparr>rows := filter (satisfies f) (rows df)\<rparr>)"
    by simp
next
  fix d assume "apply_filters df f = Inr d"
  then show "d = df\<lparr>rows := filter (satisfies f) (rows df)\<rparr>" by (rule apply_filters_rows)
next
  assume "\<not> is_number (year f)"
  then show "apply_filters df f = apply_filters df (f\<lparr>year := PNone\<rparr>)"
    by (rule year_not_number)
next
  assume "injury_type f \<noteq> PStr ''Pedestrian'' \<and> injury_type f \<noteq> PStr ''Cyclist''
        \<and> injury_type f \<noteq> PStr ''Motorist''"
  then show "apply_filters df f = apply_filters df (f\<lparr>injury_type := PNone\<rparr>)"
    by (intro injury_not_listed) simp_all
qed

theorem apply_filters_exact_match_witness:
  "{BOROUGH, CRASH_YEAR, VEHICLE_TYPE_CODE_1, VEHICLE_TYPE_CODE_2,
      CONTRIBUTING_FACTOR_VEHICLE_1, CONTRIBUTING_FACTOR_VEHICLE_2,
      NUMBER_OF_PEDESTRIANS_INJURED, NUMBER_OF_PEDESTRIANS_KILLED,
      NUMBER_OF_CYCLIST_INJURED, NUMBER_OF_CYCLIST_KILLED,
      NUMBER_OF_MOTORIST_INJURED, NUMBER_OF_MOTORIST_KILLED} \<subseteq> set (columns sample_df)
   \<and> apply_filters sample_df brooklyn_loose
       = Inr (sample_df\<lparr>rows := [crash_row ''BROOKLYN'' 2021, crash_row ''BROOKLYN'' 2021]\<rparr>)
   \<and> year brooklyn_loose = PStr ''2022'' \<and> \<not> is_number (year brooklyn_loose)
   \<and> apply_filters sample_df (brooklyn_loose\<lparr>year := PNone\<rparr>)
       = Inr (sample_df\<lparr>rows := [crash_row ''BROOKLYN'' 2021, crash_row ''BROOKLYN'' 2021]\<rparr>)
   \<and> injury_type brooklyn_loose = PStr ''Driver''
   \<and> apply_filters sample_df (brooklyn_loose\<lparr>injury_type := PNone\<rparr>)
       = Inr (sample_df\<lparr>rows := [crash_row ''BROOKLYN'' 2021, crash_row ''BROOKLYN'' 2021]\<rparr>)
   \<and> sample_df\<lparr>rows := [crash_row ''BROOKLYN'' 2021, crash_row ''BROOKLYN'' 2021]\<rparr>
       = sample_df\<lparr>rows := filter (satisfies brooklyn_loose) (rows sample_df)\<rparr>
   \<and> \<not> constraining (contributing_factor brooklyn_loose)
   \<and> \<not> constraining (vehicle_type brooklyn_loose)"
proof -
  have cols: "{BOROUGH, CRASH_YEAR, VEHICLE_TYPE_CODE_1, VEHICLE_TYPE_CODE_2,
      CONTRIBUTING_FACTOR_VEHICLE_1, CONTRIBUTING_FACTOR_VEHICLE_2,
      NUMBER_OF_PEDESTRIANS_INJURED, NUMBER_OF_PEDESTRIANS_KILLED,
      NUMBER_OF_CYCLIST_INJURED, NUMBER_OF_CYCLIST_KILLED,
      NUMBER_OF_MOTORIST_INJURED, NUMBER_OF_MOTORIST_KILLED} \<subseteq> set (columns sample_df)"
    by (simp add: sample_df_def all_columns_def)
  have y: "year brooklyn_loose = PStr ''2022''" "\<not> is_number (year brooklyn_loose)"
    by (simp_all add: brooklyn_loose_def)
  have i: "injury_type brooklyn_loose = PStr ''Driver''" by (simp add: brooklyn_loose_def)
  then have i': "injury_type brooklyn_loose \<noteq> PStr ''Pedestrian''
      \<and> injury_type brooklyn_loose \<noteq> PStr ''Cyclist''
      \<and> injury_type brooklyn_loose \<noteq> PStr ''Motorist''" by simp
  have n: "\<not> constraining (contributing_factor brooklyn_loose)"
    "\<not> constraining (vehicle_type brooklyn_loose)"
    by (simp_all add: brooklyn_loose_def constraining_def)
  note t = apply_filters_exact_match [of sample_df brooklyn_loose]
  from t [THEN conjunct1] cols have "apply_filters sample_df brooklyn_loose
      = Inr (sample_df\<lparr>rows := filter (satisfies brooklyn_loose) (rows sample_df)\<rparr>)"
    by (rule mp)
  then have 1: "apply_filters sample_df brooklyn_loose
      = Inr (sample_df\<lparr>rows := [crash_row ''BROOKLYN'' 2021, crash_row ''BROOKLYN'' 2021]\<rparr>)"
    by (simp only: satisfies_brooklyn_loose)
  from t [THEN conjunct2, THEN conjunct2, THEN conjunct1] y(2)
  have "apply_filters sample_df brooklyn_loose
      = apply_filters sample_df (brooklyn_loose\<lparr>year := PNone\<rparr>)"
    by (rule mp)
  with 1 have 2: "apply_filters sample_df (brooklyn_loose\<lparr>year := PNone\<rparr>)
      = Inr (sample_df\<lparr>rows := [crash_row ''BROOKLYN'' 2021, crash_row ''BROOKLYN'' 2021]\<rparr>)"
    by simp
  from t [THEN conjunct2, THEN conjunct2, THEN conjunct2] i'
  have "apply_filters sample_df brooklyn_loose
      = apply_filters sample_df (brooklyn_loose\<lparr>injury_type := PNone\<rparr>)"
    by (rule mp)
  with 1 have 3: "apply_filters sample_df (brooklyn_loose\<lparr>injury_type := PNone\<rparr>)
      = Inr (sample_df\<lparr>rows := [crash_row ''BROOKLYN'' 2021, crash_row ''BROOKLYN'' 2021]\<rparr>)"
    by simp
  from t [THEN conjunct2, THEN conjunct1, THEN spec, THEN mp, OF 1]
  have 4: "sample_df\<lparr>rows := [crash_row ''BROOKLYN'' 2021, crash_row ''BROOKLYN'' 2021]\<rparr>
       = sample_df\<lparr>rows := filter (satisfies brooklyn_loose) (rows sample_df)\<rparr>" .
  from cols 1 y 2 i 3 4 n show ?thesis by (intro conjI)
qed

section \<open>Properties of the query parser\<close>

lemma contains_sublist: "contains s k = sublist k s"
  by (induction s) (auto simp: sublist_Cons_right)

lemma first_keyword_nth:
  "i < length t \<Longrightarrow> contains q (fst (t ! i)) \<Longrightarrow> \<forall>j<i. \<not> contains q (fst (t ! j))
   \<Longrightarrow> first_keyword t q = PStr (snd (t ! i))"
proof (induction t arbitrary: i)
  case Nil
  then show ?case by simp
next
  case (Cons e t)
  obtain k v where e: "e = (k, v)" by (cases e)
  show ?case
  proof (cases i)
    case 0
    with Cons.prems e show ?thesis by simp
  next
    case (Suc n)
    with Cons.prems e have "\<not> contains q k" by auto
    moreover have "first_keyword t q = PStr (snd (t ! n))"
      using Cons.prems Suc by (intro Cons.IH) auto
    ultimately show ?thesis using e Suc by simp
  qed
qed

lemma parse_borough: "borough (parse_search_query q) = first_keyword boroughs (lower q)"
  by (simp add: parse_search_query_def Let_def lower_def boroughs_def)

lemma parse_vehicle_type:
  "vehicle_type (parse_search_query q) = first_keyword vehicle_keywords (lower q)"
  by (simp add: parse_search_query_def Let_def lower_def vehicle_keywords_def)

lemma parse_injury_type:
  "injury_type (parse_search_query q) = extract_injury (lower q)"
  by (simp add: parse_search_query_def Let_def lower_def extract_injury_def)

lemma lower_sib: "lower ''staten island brooklyn'' = ''staten island brooklyn''"
  by code_simp

lemma contains_sib: "contains ''staten island brooklyn'' ''brooklyn''"
  by simp

text \<open>
  C9. The borough table is iterated in the order brooklyn, manhattan, queens, bronx,
  staten island, and the borough of a query is the value of the first entry of the table
  whose keyword occurs in the lower-cased query, wherever in the text the keywords stand.
  The query "staten island brooklyn" parses to BROOKLYN.
\<close>

theorem borough_table_order:
  assumes "i < length boroughs"
    and "contains (lower query) (fst (boroughs ! i))"
    and "\<forall>j<i. \<not> contains (lower query) (fst (boroughs ! j))"
  shows "map fst boroughs = [''brooklyn'', ''manhattan'', ''queens'', ''bronx'', ''staten island'']
    \<and> borough (parse_search_query query) = PStr (snd (boroughs ! i))
    \<and> borough (parse_search_query ''staten island brooklyn'') = PStr ''BROOKLYN''"
proof -
  have "map fst boroughs = [''brooklyn'', ''manhattan'', ''queens'', ''bronx'', ''staten island'']"
    by (simp add: boroughs_def)
  moreover have "borough (parse_search_query query) = PStr (snd (boroughs ! i))"
    unfolding parse_borough using assms by (rule first_keyword_nth)
  moreover have "borough (parse_search_query ''staten island brooklyn'') = PStr ''BROOKLYN''"
    unfolding parse_borough lower_sib by (simp add: boroughs_def)
  ultimately show ?thesis by simp
qed

theorem borough_table_order_witness:
  "1 < length boroughs
   \<and> contains (lower ''Bronx or Manhattan'') (fst (boroughs ! 1))
   \<and> \<not> contains (lower ''Bronx or Manhattan'') (fst (boroughs ! 0))
   \<and> borough (parse_search_query ''Bronx or Manhattan'') = PStr ''MANHATTAN''"
proof -
  have l: "lower ''Bronx or Manhattan'' = ''bronx or manhattan''"
    by code_simp
  have h: "1 < length boroughs" "contains (lower ''Bronx or Manhattan'') (fst (boroughs ! 1))"
    "\<not> contains (lower ''Bronx or Manhattan'') (fst (boroughs ! 0))"
    unfolding l by (simp_all add: boroughs_def)
  then have "\<forall>j<1. \<not> contains (lower ''Bronx or Manhattan'') (fst (boroughs ! j))" by simp
  from borough_table_order [OF h(1) h(2) this]
  have "borough (parse_search_query ''Bronx or Manhattan'') = PStr (snd (boroughs ! 1))" by simp
  then have "borough (parse_search_query ''Bronx or Manhattan'') = PStr ''MANHATTAN''"
    by (simp add: boroughs_def)
  with h show ?thesis by simp
qed

text \<open>
  C10. A query whose lower-cased text contains "bicycle" gets two fields from it: the
  vehicle type is "Bicycle" exactly when none of the earlier keywords of the vehicle
  table (sedan, suv, sport utility, truck, pickup, motorcycle, moped) occurs, and the
  injury type is "Cyclist" unless "pedestrian" occurs, which gives "Pedestrian".
\<close>

theorem bicycle_sets_two_fields:
  assumes "contains (lower query) ''bicycle''"
  shows "(vehicle_type (parse_search_query query) = PStr ''Bicycle'')
       = (\<not> contains (lower query) ''sedan'' \<and> \<not> contains (lower query) ''suv''
          \<and> \<not> contains (lower query) ''sport utility'' \<and> \<not> contains (lower query) ''truck''
          \<and> \<not> contains (lower query) ''pickup'' \<and> \<not> contains (lower query) ''motorcycle''
          \<and> \<not> contains (lower query) ''moped'')
     \<and> injury_type (parse_search_query query)
       = (if contains (lower query) ''pedestrian'' then PStr ''Pedestrian'' else PStr ''Cyclist'')"
  using assms
  by (simp add: parse_vehicle_type parse_injury_type vehicle_keywords_def extract_injury_def)

theorem bicycle_sets_two_fields_witness:
  "contains (lower ''Bicycle crash'') ''bicycle''
   \<and> vehicle_type (parse_search_query ''Bicycle crash'') = PStr ''Bicycle''
   \<and> injury_type (parse_search_query ''Bicycle crash'') = PStr ''Cyclist''"
proof -
  have l: "lower ''Bicycle crash'' = ''bicycle crash''"
    by code_simp
  have h: "contains (lower ''Bicycle crash'') ''bicycle''" unfolding l by simp
  from bicycle_sets_two_fields [OF h] have
    "(vehicle_type (parse_search_query ''Bicycle crash'') = PStr ''Bicycle'')
       = (\<not> contains ''bicycle crash'' ''sedan'' \<and> \<not> contains ''bicycle crash'' ''suv''
          \<and> \<not> contains ''bicycle crash'' ''sport utility'' \<and> \<not> contains ''bicycle crash'' ''truck''
          \<and> \<not> contains ''bicycle crash'' ''pickup'' \<and> \<not> contains ''bicycle crash'' ''motorcycle''
          \<and> \<not> contains ''bicycle crash'' ''moped'')"
    and "injury_type (parse_search_query ''Bicycle crash'')
       = (if contains ''bicycle crash'' ''pedestrian'' then PStr ''Pedestrian'' else PStr ''Cyclist'')"
    unfolding l by blast+
  then have "vehicle_type (parse_search_query ''Bicycle crash'') = PStr ''Bicycle''"
    "injury_type (parse_search_query ''Bicycle crash'') = PStr ''Cyclist''"
    by simp_all
  with h show ?thesis by simp
qed

lemma full_year_pattern_eq: "full_year_pattern s = year_pattern s"
  by (induction s rule: year_pattern.induct) auto

lemma year_pattern_length: "year_pattern s \<Longrightarrow> 4 \<le> length s"
  by (induction s rule: year_pattern.induct) auto

lemma is_digit_word: "is_digit c \<Longrightarrow> is_word c"
proof -
  have "\<forall>d\<in>set ''0123456789''. is_word d"
    by (simp add: is_word_def in_ranges_def code_def)
  then show "is_digit c \<Longrightarrow> is_word c" unfolding is_digit_def by blast
qed

lemma year_pattern_words:
  assumes "year_pattern s"
  shows "is_word (s ! 0) \<and> is_word (s ! 3)"
proof -
  from assms obtain a b c d rest where s: "s = a # b # c # d # rest"
    by (induction s rule: year_pattern.induct) auto
  from assms s have "a = CHR ''1'' \<or> a = CHR ''2''" and "is_digit d" by auto
  then have "is_digit a" "is_digit d" by (auto simp: is_digit_def)
  then show ?thesis by (simp add: s is_digit_word)
qed

lemma digit_value_le: "is_digit c \<Longrightarrow> digit_value c \<le> 9"
  by (auto simp: is_digit_def digit_value_def)

lemma year_pattern_int:
  assumes "year_pattern s"
  shows "\<exists>n. py_int (take 4 s) = Some n \<and> 1900 \<le> n \<and> n \<le> 2099"
proof -
  from assms obtain a b c d rest where s: "s = a # b # c # d # rest"
    by (induction s rule: year_pattern.induct) auto
  from assms s have ab: "[a, b] = ''19'' \<or> [a, b] = ''20''" and c: "is_digit c" and d: "is_digit d"
    by auto
  have digs: "is_digit a" "is_digit b" using ab by (auto simp: is_digit_def)
  have v: "(digit_value a = 1 \<and> digit_value b = 9) \<or> (digit_value a = 2 \<and> digit_value b = 0)"
    using ab by (auto simp: digit_value_def)
  have "py_int (take 4 s)
      = Some (int (10 * (10 * (10 * digit_value a + digit_value b) + digit_value c) + digit_value d))"
    using digs c d by (simp add: s py_int_def)
  moreover have "digit_value c \<le> 9" "digit_value d \<le> 9"
    using c d by (simp_all add: digit_value_le)
  ultimately show ?thesis using v by auto
qed

lemma match_here_token:
  "match_here year_pattern (before None q i) (drop i q) = year_token q i"
proof (cases "year_pattern (drop i q)")
  case False
  then show ?thesis by (simp add: match_here_def year_token_def)
next
  case True
  then have len: "i + 4 \<le> length q" using year_pattern_length [of "drop i q"] by simp
  from True have w: "is_word (q ! i)" "is_word (q ! (i + 3))"
    using year_pattern_words [of "drop i q"] len by (simp_all add: add.commute)
  show ?thesis using True len w
    by (auto simp: match_here_def year_token_def boundary_def before_def)
qed

lemma re_search_None:
  "re_search pat p s = None \<Longrightarrow> i < length s \<Longrightarrow> \<not> match_here pat (before p s i) (drop i s)"
proof (induction s arbitrary: p i)
  case Nil
  then show ?case by simp
next
  case (Cons c cs)
  show ?case
  proof (cases i)
    case 0
    with Cons.prems show ?thesis by (simp add: before_def split: if_splits)
  next
    case (Suc n)
    from Cons.prems have "re_search pat (Some c) cs = None" by (simp split: if_splits)
    then have "\<not> match_here pat (before (Some c) cs n) (drop n cs)"
      using Cons.prems Suc by (intro Cons.IH) auto
    moreover have "before p (c # cs) i = before (Some c) cs n"
      using Suc by (cases n) (simp_all add: before_def)
    ultimately show ?thesis using Suc by simp
  qed
qed

lemma re_search_Some:
  "re_search pat p s = Some g \<Longrightarrow>
   \<exists>i<length s. match_here pat (before p s i) (drop i s) \<and> g = take 4 (drop i s)
      \<and> (\<forall>j<i. \<not> match_here pat (before p s j) (drop j s))"
proof (induction s arbitrary: p)
  case Nil
  then show ?case by simp
next
  case (Cons c cs)
  show ?case
  proof (cases "match_here pat p (c # cs)")
    case True
    with Cons.prems have "g = take 4 (c # cs)" by simp
    with True show ?thesis by (intro exI [of _ 0]) (simp add: before_def)
  next
    case False
    with Cons.prems have "re_search pat (Some c) cs = Some g" by simp
    from Cons.IH [OF this] obtain n where n: "n < length cs"
      "match_here pat (before (Some c) cs n) (drop n cs)" "g = take 4 (drop n cs)"
      "\<forall>j<n. \<not> match_here pat (before (Some c) cs j) (drop j cs)" by blast
    have shift: "before p (c # cs) (Suc j) = before (Some c) cs j" for j
      by (cases j) (simp_all add: before_def)
    have "\<forall>j<Suc n. \<not> match_here pat (before p (c # cs) j) (drop j (c # cs))"
    proof (intro allI impI)
      fix j assume "j < Suc n"
      show "\<not> match_here pat (before p (c # cs) j) (drop j (c # cs))"
      proof (cases j)
        case 0
        with False show ?thesis by (simp add: before_def)
      next
        case (Suc m)
        with \<open>j < Suc n\<close> n(4) shift show ?thesis by simp
      qed
    qed
    with n shift show ?thesis by (intro exI [of _ "Suc n"]) simp
  qed
qed

lemma no_token_no_year: "(\<forall>i. \<not> year_token q i) \<Longrightarrow> re_search year_pattern None q = None"
proof (rule ccontr)
  assume a: "\<forall>i. \<not> year_token q i" and "re_search year_pattern None q \<noteq> None"
  then obtain g where "re_search year_pattern None q = Some g" by auto
  from re_search_Some [OF this] a show False by (auto simp: match_here_token)
qed

lemma re_search_None_tokens: "re_search year_pattern None q = None \<Longrightarrow> \<not> year_token q i"
proof
  assume n: "re_search year_pattern None q = None" and t: "year_token q i"
  from t have "year_pattern (drop i q)" by (simp add: year_token_def)
  then have "i < length q" using year_pattern_length [of "drop i q"] by simp
  from re_search_None [OF n this] t show False by (simp add: match_here_token)
qed

lemma first_token_found:
  assumes "year_token q i" "\<forall>j<i. \<not> year_token q j"
  shows "re_search year_pattern None q = Some (take 4 (drop i q))"
proof (cases "re_search year_pattern None q")
  case None
  with assms(1) re_search_None_tokens show ?thesis by blast
next
  case (Some g)
  from re_search_Some [OF this] obtain k where k: "year_token q k" "g = take 4 (drop k q)"
    "\<forall>j<k. \<not> year_token q j" by (auto simp: match_here_token)
  with assms have "k = i" by (meson linorder_neqE_nat)
  with k Some show ?thesis by simp
qed

lemma extract_year_eq:
  "extract_year q = (case re_search year_pattern None q of None \<Rightarrow> PNone
     | Some g \<Rightarrow> (case py_int g of None \<Rightarrow> PNone | Some n \<Rightarrow> PInt n))"
proof -
  have "full_year_pattern = year_pattern" by (rule ext) (rule full_year_pattern_eq)
  then show ?thesis by (simp add: extract_year_def split: option.splits)
qed

lemma parse_year: "year (parse_search_query q) = extract_year q"
  by (simp add: parse_search_query_def Let_def extract_year_def)

lemma no_substring_no_token: "first_year_substring q = None \<Longrightarrow> \<not> year_pattern (drop i q)"
proof (induction q arbitrary: i)
  case Nil
  then show ?case by simp
next
  case (Cons c cs)
  then show ?case by (cases i) (auto split: if_splits)
qed

text \<open>
  C4, as stated, fails: the pattern of the code is anchored by \<open>\b\<close> on both sides, so
  a four-digit year glued to a letter or to another digit is not extracted, and a later
  free-standing year is preferred to an earlier glued one.
\<close>

theorem year_substring_counterexample:
  "first_year_substring ''x2021'' = Some ''2021'' \<and> py_int ''2021'' = Some 2021
   \<and> year (parse_search_query ''x2021'') = PNone
   \<and> first_year_substring ''12021 or 2022'' = Some ''2021''
   \<and> year (parse_search_query ''12021 or 2022'') = PInt 2022"
  by code_simp

text \<open>
  C4, amended. The year field is the integer value of the first year token of the
  query, a token being four characters matching \<open>(19|20)\d\d\<close> with no word character
  (a letter or digit in Unicode's sense, or the underscore) directly before or after
  them; that value lies between 1900 and 2099. When the query has no year token the year
  field is absent; this covers every query with no substring matching \<open>(19|20)\d\d\<close> at
  all.
\<close>

theorem year_is_first_token:
  "(year_token q i \<and> (\<forall>j<i. \<not> year_token q j) \<longrightarrow>
      (\<exists>n. py_int (take 4 (drop i q)) = Some n \<and> 1900 \<le> n \<and> n \<le> 2099
         \<and> year (parse_search_query q) = PInt n))
   \<and> ((\<forall>i. \<not> year_token q i) \<longrightarrow> year (parse_search_query q) = PNone)
   \<and> (first_year_substring q = None \<longrightarrow> year (parse_search_query q) = PNone)"
proof (intro conjI impI)
  assume a: "year_token q i \<and> (\<forall>j<i. \<not> year_token q j)"
  then have s: "re_search year_pattern None q = Some (take 4 (drop i q))"
    by (simp add: first_token_found)
  from a have "year_pattern (drop i q)" by (simp add: year_token_def)
  from year_pattern_int [OF this] obtain n where
    n: "py_int (take 4 (drop i q)) = Some n" "1900 \<le> n" "n \<le> 2099" by blast
  with s show "\<exists>n. py_int (take 4 (drop i q)) = Some n \<and> 1900 \<le> n \<and> n \<le> 2099
         \<and> year (parse_search_query q) = PInt n"
    by (simp add: parse_year extract_year_eq)
next
  assume "\<forall>i. \<not> year_token q i"
  then show "year (parse_search_query q) = PNone"
    by (simp add: parse_year extract_year_eq no_token_no_year)
next
  assume "first_year_substring q = None"
  then have "\<forall>i. \<not> year_token q i" by (simp add: year_token_def no_substring_no_token)
  then show "year (parse_search_query q) = PNone"
    by (simp add: parse_year extract_year_eq no_token_no_year)
qed

theorem year_is_first_token_witness:
  "year_token ''in 2019'' 3 \<and> \<not> year_token ''in 2019'' 0 \<and> \<not> year_token ''in 2019'' 1
   \<and> \<not> year_token ''in 2019'' 2 \<and> year (parse_search_query ''in 2019'') = PInt 2019
   \<and> \<not> year_token ''x2021'' 1 \<and> year (parse_search_query ''x2021'') = PNone
   \<and> \<not> year_token (CHR 0xE9 # ''2021'') 1
   \<and> year (parse_search_query (CHR 0xE9 # ''2021'')) = PNone
   \<and> first_year_substring ''hello'' = None \<and> year (parse_search_query ''hello'') = PNone"
proof -
  have t: "year_token ''in 2019'' 3" "\<not> year_token ''in 2019'' 0" "\<not> year_token ''in 2019'' 1"
    "\<not> year_token ''in 2019'' 2"
    by (simp_all add: year_token_def is_digit_def is_word_def in_ranges_def code_def)
  have "j = 0 \<or> j = 1 \<or> j = 2" if "j < 3" for j :: nat using that by arith
  with t have first: "year_token ''in 2019'' 3 \<and> (\<forall>j<3. \<not> year_token ''in 2019'' j)"
    by blast
  from year_is_first_token [of "''in 2019''" 3] first
  obtain n where n: "py_int (take 4 (drop 3 ''in 2019'')) = Some n"
    "year (parse_search_query ''in 2019'') = PInt n" by blast
  have "py_int (take 4 (drop 3 ''in 2019'')) = Some 2019"
    by (simp add: py_int_def is_digit_def digit_value_def)
  with n have a: "year (parse_search_query ''in 2019'') = PInt 2019" by simp
  have "re_search year_pattern None ''x2021'' = None"
    by (simp add: match_here_def boundary_def is_word_def is_digit_def in_ranges_def code_def)
  then have none: "\<forall>i. \<not> year_token ''x2021'' i" by (simp add: re_search_None_tokens)
  with year_is_first_token [of "''x2021''"]
  have b: "year (parse_search_query ''x2021'') = PNone" by blast
  have "re_search year_pattern None (CHR 0xE9 # ''2021'') = None"
    by (simp add: match_here_def boundary_def is_word_def is_digit_def in_ranges_def code_def)
  then have none': "\<forall>i. \<not> year_token (CHR 0xE9 # ''2021'') i"
    by (simp add: re_search_None_tokens)
  with year_is_first_token [of "CHR 0xE9 # ''2021''"]
  have b': "year (parse_search_query (CHR 0xE9 # ''2021'')) = PNone" by blast
  have s: "first_year_substring ''hello'' = None" by simp
  with year_is_first_token [of "''hello''"]
  have c: "year (parse_search_query ''hello'') = PNone" by blast
  from t a none b none' b' s c show ?thesis by simp
qed

section \<open>Properties of the categorical normalizer\<close>

lemma first_factor_options:
  "get_dropdown_options first_factor_df
     = Inr (initial_options\<lparr>contributing_factors := [''Unsafe Speed'']\<rparr>)"
  by code_simp

lemma first_vehicle_raises:
  "get_dropdown_options first_vehicle_df = Inl (KeyError VEHICLE_TYPE_CODE_2)"
  by code_simp

lemma andThen_simps [simp]: "andThen (Inr x) k = k x" "andThen (Inl e) k = Inl e"
  by (simp_all add: andThen_def)

lemma boroughs_step_cases:
  "boroughs_step df opts = Inr (if BOROUGH \<in> set (columns df)
      then opts\<lparr>boroughs_opt := borough_options (map (\<lambda>r. text_cell r BOROUGH) (rows df))\<rparr>
      else opts)"
  by (simp add: boroughs_step_def text_column_def)

lemma years_step_cases:
  "years_step df opts = Inr (if CRASH_YEAR \<in> set (columns df)
      then opts\<lparr>years := year_options (map (\<lambda>r. num_cell r CRASH_YEAR) (rows df))\<rparr>
      else opts)"
  by (simp add: years_step_def num_column_def)

lemma vehicle_types_step_cases:
  "vehicle_types_step df opts =
     (if VEHICLE_TYPE_CODE_1 \<in> set (columns df)
      then (if VEHICLE_TYPE_CODE_2 \<in> set (columns df)
            then Inr (opts\<lparr>vehicle_types :=
                   vehicle_type_options (map (\<lambda>r. text_cell r VEHICLE_TYPE_CODE_1) (rows df))
                     (map (\<lambda>r. text_cell r VEHICLE_TYPE_CODE_2) (rows df))\<rparr>)
            else Inl (KeyError VEHICLE_TYPE_CODE_2))
      else Inr opts)"
  by (simp add: vehicle_types_step_def text_column_def)

lemma factors_step_cases:
  "factors_step df opts = Inr (if CONTRIBUTING_FACTOR_VEHICLE_1 \<in> set (columns df)
      then opts\<lparr>contributing_factors :=
             factor_options (map (\<lambda>r. text_cell r CONTRIBUTING_FACTOR_VEHICLE_1) (rows df))
               (if CONTRIBUTING_FACTOR_VEHICLE_2 \<in> set (columns df)
                then map (\<lambda>r. text_cell r CONTRIBUTING_FACTOR_VEHICLE_2) (rows df) else [])\<rparr>
      else opts)"
  by (simp add: factors_step_def text_column_def)

lemma dropna_set: "set (dropna xs) = {x. Some x \<in> set xs}"
  by (induction xs rule: dropna.induct) auto

lemma unique_set: "set (unique xs) = set xs"
  by (simp add: unique_def)

lemma factor_options_first:
  "set (factor_options c1 []) = {s. \<exists>f. Some f \<in> set c1 \<and> s = strip f \<and> valid_factor s}"
  by (auto simp: factor_options_def unique_set dropna_set unique_def)

lemma get_dropdown_options_cases:
  "get_dropdown_options df =
     (if empty_frame df then Inr initial_options
      else andThen (vehicle_types_step df
             (if CRASH_YEAR \<in> set (columns df)
              then (if BOROUGH \<in> set (columns df)
                    then initial_options\<lparr>boroughs_opt :=
                           borough_options (map (\<lambda>r. text_cell r BOROUGH) (rows df))\<rparr>
                    else initial_options)\<lparr>years :=
                      year_options (map (\<lambda>r. num_cell r CRASH_YEAR) (rows df))\<rparr>
              else (if BOROUGH \<in> set (columns df)
                    then initial_options\<lparr>boroughs_opt :=
                           borough_options (map (\<lambda>r. text_cell r BOROUGH) (rows df))\<rparr>
                    else initial_options)))
             (factors_step df))"
  by (simp add: get_dropdown_options_def boroughs_step_cases years_step_cases)

lemma cells_set:
  "(\<exists>f. Some f \<in> set (map g rs) \<and> P f) = (\<exists>r\<in>set rs. \<exists>f. g r = Some f \<and> P f)"
proof
  assume "\<exists>f. Some f \<in> set (map g rs) \<and> P f"
  then obtain f where "Some f \<in> g ` set rs" "P f" by auto
  then obtain r where "r \<in> set rs" "g r = Some f" by (auto simp: image_iff dest: sym)
  with \<open>P f\<close> show "\<exists>r\<in>set rs. \<exists>f. g r = Some f \<and> P f" by blast
next
  assume "\<exists>r\<in>set rs. \<exists>f. g r = Some f \<and> P f"
  then obtain r f where "r \<in> set rs" "g r = Some f" "P f" by blast
  then have "Some f \<in> set (map g rs)" by (metis image_eqI set_map)
  with \<open>P f\<close> show "\<exists>f. Some f \<in> set (map g rs) \<and> P f" by blast
qed

lemma bare_options: "get_dropdown_options bare_df = Inr initial_options"
  by code_simp

text \<open>
  C3, as stated, fails twice. With the first vehicle-type column present and the second
  missing, get_dropdown_options raises \<open>KeyError\<close>. With the first contributing-factor
  column present and the second missing, it returns the factors of the first column,
  not an empty Option Set.
\<close>

theorem missing_second_column_counterexample:
  "VEHICLE_TYPE_CODE_2 \<notin> set (columns first_vehicle_df)
   \<and> get_dropdown_options first_vehicle_df = Inl (KeyError VEHICLE_TYPE_CODE_2)
   \<and> CONTRIBUTING_FACTOR_VEHICLE_2 \<notin> set (columns first_factor_df)
   \<and> get_dropdown_options first_factor_df
       = Inr (initial_options\<lparr>contributing_factors := [''Unsafe Speed'']\<rparr>)
   \<and> contributing_factors (initial_options\<lparr>contributing_factors := [''Unsafe Speed'']\<rparr>) \<noteq> []"
  using first_factor_options first_vehicle_raises
  by (simp add: first_vehicle_df_def first_factor_df_def)

text \<open>
  C3, amended. An empty data frame gives empty Option Sets. On a data frame whose first
  vehicle-type column is missing or whose second one is present, get_dropdown_options
  returns, and a dimension whose only or first source column (BOROUGH, CRASH_YEAR,
  VEHICLE_TYPE_CODE_1, CONTRIBUTING_FACTOR_VEHICLE_1) is missing has an empty Option Set;
  when only the second contributing-factor column is missing, the Option Set holds the
  valid stripped values of the first one. Nothing is said of a data frame with rows that
  has the first vehicle-type column and not the second.
\<close>

theorem dropdown_missing_columns:
  "(empty_frame df \<longrightarrow> get_dropdown_options df = Inr initial_options)
   \<and> (VEHICLE_TYPE_CODE_1 \<notin> set (columns df) \<or> VEHICLE_TYPE_CODE_2 \<in> set (columns df) \<longrightarrow>
       (\<exists>opts. get_dropdown_options df = Inr opts
          \<and> (BOROUGH \<notin> set (columns df) \<longrightarrow> boroughs_opt opts = [])
          \<and> (CRASH_YEAR \<notin> set (columns df) \<longrightarrow> years opts = [])
          \<and> (VEHICLE_TYPE_CODE_1 \<notin> set (columns df) \<longrightarrow> vehicle_types opts = [])
          \<and> (CONTRIBUTING_FACTOR_VEHICLE_1 \<notin> set (columns df) \<longrightarrow> contributing_factors opts = [])
          \<and> (\<not> empty_frame df \<and> CONTRIBUTING_FACTOR_VEHICLE_1 \<in> set (columns df)
               \<and> CONTRIBUTING_FACTOR_VEHICLE_2 \<notin> set (columns df) \<longrightarrow>
              set (contributing_factors opts)
                = {s. \<exists>r\<in>set (rows df). \<exists>f. text_cell r CONTRIBUTING_FACTOR_VEHICLE_1 = Some f
                         \<and> s = strip f \<and> valid_factor s})))"
proof (intro conjI impI)
  assume "empty_frame df"
  then show "get_dropdown_options df = Inr initial_options"
    by (simp add: get_dropdown_options_def)
next
  assume v: "VEHICLE_TYPE_CODE_1 \<notin> set (columns df) \<or> VEHICLE_TYPE_CODE_2 \<in> set (columns df)"
  then have "\<exists>opts. get_dropdown_options df = Inr opts"
    by (auto simp: get_dropdown_options_cases vehicle_types_step_cases factors_step_cases)
  then obtain opts where g: "get_dropdown_options df = Inr opts" by (rule exE)
  have 1: "BOROUGH \<notin> set (columns df) \<longrightarrow> boroughs_opt opts = []"
    using g by (auto simp: get_dropdown_options_cases vehicle_types_step_cases
        factors_step_cases initial_options_def split: if_splits)
  have 2: "CRASH_YEAR \<notin> set (columns df) \<longrightarrow> years opts = []"
    using g by (auto simp: get_dropdown_options_cases vehicle_types_step_cases
        factors_step_cases initial_options_def split: if_splits)
  have 3: "VEHICLE_TYPE_CODE_1 \<notin> set (columns df) \<longrightarrow> vehicle_types opts = []"
    using g by (auto simp: get_dropdown_options_cases vehicle_types_step_cases
        factors_step_cases initial_options_def split: if_splits)
  have 4: "CONTRIBUTING_FACTOR_VEHICLE_1 \<notin> set (columns df) \<longrightarrow> contributing_factors opts = []"
    using g by (auto simp: get_dropdown_options_cases vehicle_types_step_cases
        factors_step_cases initial_options_def split: if_splits)
  have 5: "\<not> empty_frame df \<and> CONTRIBUTING_FACTOR_VEHICLE_1 \<in> set (columns df)
               \<and> CONTRIBUTING_FACTOR_VEHICLE_2 \<notin> set (columns df) \<longrightarrow>
              set (contributing_factors opts)
                = {s. \<exists>r\<in>set (rows df). \<exists>f. text_cell r CONTRIBUTING_FACTOR_VEHICLE_1 = Some f
                         \<and> s = strip f \<and> valid_factor s}"
  proof
    assume a: "\<not> empty_frame df \<and> CONTRIBUTING_FACTOR_VEHICLE_1 \<in> set (columns df)
             \<and> CONTRIBUTING_FACTOR_VEHICLE_2 \<notin> set (columns df)"
    with g have "contributing_factors opts
        = factor_options (map (\<lambda>r. text_cell r CONTRIBUTING_FACTOR_VEHICLE_1) (rows df)) []"
      by (auto simp: get_dropdown_options_cases vehicle_types_step_cases factors_step_cases
          split: if_splits)
    then show "set (contributing_factors opts)
              = {s. \<exists>r\<in>set (rows df). \<exists>f. text_cell r CONTRIBUTING_FACTOR_VEHICLE_1 = Some f
                       \<and> s = strip f \<and> valid_factor s}"
      by (simp only: factor_options_first cells_set)
  qed
  from g 1 2 3 4 5
  show "\<exists>opts. get_dropdown_options df = Inr opts
          \<and> (BOROUGH \<notin> set (columns df) \<longrightarrow> boroughs_opt opts = [])
          \<and> (CRASH_YEAR \<notin> set (columns df) \<longrightarrow> years opts = [])
          \<and> (VEHICLE_TYPE_CODE_1 \<notin> set (columns df) \<longrightarrow> vehicle_types opts = [])
          \<and> (CONTRIBUTING_FACTOR_VEHICLE_1 \<notin> set (columns df) \<longrightarrow> contributing_factors opts = [])
          \<and> (\<not> empty_frame df \<and> CONTRIBUTING_FACTOR_VEHICLE_1 \<in> set (columns df)
               \<and> CONTRIBUTING_FACTOR_VEHICLE_2 \<notin> set (columns df) \<longrightarrow>
              set (contributing_factors opts)
                = {s. \<exists>r\<in>set (rows df). \<exists>f. text_cell r CONTRIBUTING_FACTOR_VEHICLE_1 = Some f
                         \<and> s = strip f \<and> valid_factor s})"
    by (intro exI [of _ opts] conjI)
qed

lemma padded_factor_options:
  "get_dropdown_options padded_factor_df
     = Inr (initial_options\<lparr>contributing_factors := [''123'' @ [CHR 0xE9], ''Unsafe Speed'']\<rparr>)"
  by code_simp

theorem dropdown_missing_columns_witness:
  "empty_frame no_rows_df \<and> get_dropdown_options no_rows_df = Inr initial_options
   \<and> VEHICLE_TYPE_CODE_1 \<notin> set (columns bare_df) \<and> BOROUGH \<notin> set (columns bare_df)
   \<and> CRASH_YEAR \<notin> set (columns bare_df) \<and> CONTRIBUTING_FACTOR_VEHICLE_1 \<notin> set (columns bare_df)
   \<and> (\<exists>opts. get_dropdown_options bare_df = Inr opts \<and> boroughs_opt opts = [] \<and> years opts = []
         \<and> vehicle_types opts = [] \<and> contributing_factors opts = [])
   \<and> \<not> empty_frame padded_factor_df
   \<and> VEHICLE_TYPE_CODE_1 \<notin> set (columns padded_factor_df)
   \<and> CONTRIBUTING_FACTOR_VEHICLE_1 \<in> set (columns padded_factor_df)
   \<and> CONTRIBUTING_FACTOR_VEHICLE_2 \<notin> set (columns padded_factor_df)
   \<and> get_dropdown_options padded_factor_df
       = Inr (initial_options\<lparr>contributing_factors := [''123'' @ [CHR 0xE9], ''Unsafe Speed'']\<rparr>)
   \<and> {s. \<exists>r\<in>set (rows padded_factor_df). \<exists>f. text_cell r CONTRIBUTING_FACTOR_VEHICLE_1 = Some f
            \<and> s = strip f \<and> valid_factor s} = {''123'' @ [CHR 0xE9], ''Unsafe Speed''}"
proof -
  have e: "empty_frame no_rows_df" by (simp add: empty_frame_def no_rows_df_def)
  from dropdown_missing_columns [of no_rows_df, THEN conjunct1] e
  have 1: "get_dropdown_options no_rows_df = Inr initial_options" by (rule mp)
  have b: "VEHICLE_TYPE_CODE_1 \<notin> set (columns bare_df)" "BOROUGH \<notin> set (columns bare_df)"
    "CRASH_YEAR \<notin> set (columns bare_df)" "CONTRIBUTING_FACTOR_VEHICLE_1 \<notin> set (columns bare_df)"
    by (simp_all add: bare_df_def)
  from b(1) have "VEHICLE_TYPE_CODE_1 \<notin> set (columns bare_df)
      \<or> VEHICLE_TYPE_CODE_2 \<in> set (columns bare_df)" by simp
  from dropdown_missing_columns [of bare_df, THEN conjunct2, THEN mp, OF this] b
  have 2: "\<exists>opts. get_dropdown_options bare_df = Inr opts \<and> boroughs_opt opts = [] \<and> years opts = []
         \<and> vehicle_types opts = [] \<and> contributing_factors opts = []" by blast
  have f: "\<not> empty_frame padded_factor_df"
    "VEHICLE_TYPE_CODE_1 \<notin> set (columns padded_factor_df)"
    "CONTRIBUTING_FACTOR_VEHICLE_1 \<in> set (columns padded_factor_df)"
    "CONTRIBUTING_FACTOR_VEHICLE_2 \<notin> set (columns padded_factor_df)"
    by (simp_all add: padded_factor_df_def empty_frame_def)
  from f(2) have "VEHICLE_TYPE_CODE_1 \<notin> set (columns padded_factor_df)
      \<or> VEHICLE_TYPE_CODE_2 \<in> set (columns padded_factor_df)" by simp
  from dropdown_missing_columns [of padded_factor_df, THEN conjunct2, THEN mp, OF this]
  obtain opts where o: "get_dropdown_options padded_factor_df = Inr opts"
    and s: "\<not> empty_frame padded_factor_df
      \<and> CONTRIBUTING_FACTOR_VEHICLE_1 \<in> set (columns padded_factor_df)
      \<and> CONTRIBUTING_FACTOR_VEHICLE_2 \<notin> set (columns padded_factor_df) \<longrightarrow>
      set (contributing_factors opts)
        = {s. \<exists>r\<in>set (rows padded_factor_df). \<exists>f.
              text_cell r CONTRIBUTING_FACTOR_VEHICLE_1 = Some f \<and> s = strip f \<and> valid_factor s}"
    by blast
  from o padded_factor_options
  have "opts = initial_options\<lparr>contributing_factors := [''123'' @ [CHR 0xE9], ''Unsafe Speed'']\<rparr>"
    by simp
  with s f have 3: "{s. \<exists>r\<in>set (rows padded_factor_df). \<exists>f.
        text_cell r CONTRIBUTING_FACTOR_VEHICLE_1 = Some f \<and> s = strip f \<and> valid_factor s}
      = {''123'' @ [CHR 0xE9], ''Unsafe Speed''}" by auto
  from e 1 b 2 f padded_factor_options 3 show ?thesis by (intro conjI)
qed

section \<open>Properties of the summary statistics and grouped series\<close>

lemma column_total_returns:
  "column_total df c c' = Inr (if c \<in> set (columns df) then nansum (map (\<lambda>r. num_cell r c) (rows df))
      else if c' \<in> set (columns df) then nansum (map (\<lambda>r. num_cell r c') (rows df)) else 0)"
  by (simp add: column_total_def num_column_def)

lemma summary_numbers_returns:
  "\<exists>ti tk. summary_numbers df = Inr
     \<lparr>total_crashes = length (rows df), total_injured = ti, total_killed = tk,
      avg_injured = (if 0 < length (rows df) then ti / of_nat (length (rows df)) else 0),
      avg_killed = (if 0 < length (rows df) then tk / of_nat (length (rows df)) else 0)\<rparr>
     \<and> ti = (if TOTAL_INJURED \<in> set (columns df)
            then nansum (map (\<lambda>r. num_cell r TOTAL_INJURED) (rows df))
            else if NUMBER_OF_PERSONS_INJURED \<in> set (columns df)
            then nansum (map (\<lambda>r. num_cell r NUMBER_OF_PERSONS_INJURED) (rows df)) else 0)"
  by (simp add: summary_numbers_def column_total_returns truediv_def Let_def)

text \<open>
  C6. calculate_summary_stats always returns its numbers: no division fault occurs. The
  count is the number of records, the total injured is the sum of TOTAL_INJURED (of
  NUMBER_OF_PERSONS_INJURED when that column is missing, 0 when both are), and the
  average injured is the total divided by the count when the count is positive and 0
  when the subset is empty.
\<close>

theorem average_injured:
  "\<exists>s. calculate_summary_stats df = Some s
     \<and> total_crashes s = length (rows df)
     \<and> total_injured s =
         (if TOTAL_INJURED \<in> set (columns df)
          then nansum (map (\<lambda>r. num_cell r TOTAL_INJURED) (rows df))
          else if NUMBER_OF_PERSONS_INJURED \<in> set (columns df)
          then nansum (map (\<lambda>r. num_cell r NUMBER_OF_PERSONS_INJURED) (rows df)) else 0)
     \<and> (0 < total_crashes s \<longrightarrow> avg_injured s = total_injured s / of_nat (total_crashes s))
     \<and> (rows df = [] \<longrightarrow> avg_injured s = 0)"
proof -
  from summary_numbers_returns [of df] obtain ti tk where
    s: "summary_numbers df = Inr
     \<lparr>total_crashes = length (rows df), total_injured = ti, total_killed = tk,
      avg_injured = (if 0 < length (rows df) then ti / of_nat (length (rows df)) else 0),
      avg_killed = (if 0 < length (rows df) then tk / of_nat (length (rows df)) else 0)\<rparr>"
    and ti: "ti = (if TOTAL_INJURED \<in> set (columns df)
            then nansum (map (\<lambda>r. num_cell r TOTAL_INJURED) (rows df))
            else if NUMBER_OF_PERSONS_INJURED \<in> set (columns df)
            then nansum (map (\<lambda>r. num_cell r NUMBER_OF_PERSONS_INJURED) (rows df)) else 0)"
    by blast
  show ?thesis
    unfolding calculate_summary_stats_def s using ti by simp
qed

theorem average_injured_witness:
  "rows no_rows_df = []
   \<and> (\<exists>s. calculate_summary_stats no_rows_df = Some s \<and> avg_injured s = 0)
   \<and> (\<exists>s. calculate_summary_stats injured_df = Some s \<and> total_crashes s = 4
         \<and> total_injured s = 3 \<and> avg_injured s = 3 / 4)"
proof -
  have e: "rows no_rows_df = []" by (simp add: no_rows_df_def)
  from average_injured [of no_rows_df] e
  have 1: "\<exists>s. calculate_summary_stats no_rows_df = Some s \<and> avg_injured s = 0" by blast
  from average_injured [of injured_df] obtain s where
    s: "calculate_summary_stats injured_df = Some s
     \<and> total_crashes s = length (rows injured_df)
     \<and> total_injured s =
         (if TOTAL_INJURED \<in> set (columns injured_df)
          then nansum (map (\<lambda>r. num_cell r TOTAL_INJURED) (rows injured_df))
          else if NUMBER_OF_PERSONS_INJURED \<in> set (columns injured_df)
          then nansum (map (\<lambda>r. num_cell r NUMBER_OF_PERSONS_INJURED) (rows injured_df)) else 0)
     \<and> (0 < total_crashes s \<longrightarrow> avg_injured s = total_injured s / of_nat (total_crashes s))
     \<and> (rows injured_df = [] \<longrightarrow> avg_injured s = 0)"
    by (rule exE)
  from s have n: "total_crashes s = 4" by (simp add: injured_df_def)
  from s have t: "total_injured s = 3"
    by (simp add: injured_df_def injured_row_def nansum_def)
  from s n t have "avg_injured s = 3 / 4" by simp
  with s n t have "\<exists>s. calculate_summary_stats injured_df = Some s \<and> total_crashes s = 4
         \<and> total_injured s = 3 \<and> avg_injured s = 3 / 4" by blast
  with e 1 show ?thesis by blast
qed

lemma window_sample_contract: "sampler_contract window_sample"
  unfolding sampler_contract_def
proof (intro allI impI conjI)
  fix g g' seed n :: nat and xs :: "crash list"
  assume n: "n \<le> length xs"
  define k where "k = seed mod (length xs - n + 1)"
  have k: "k + n \<le> length xs"
  proof -
    have "k < length xs - n + 1" unfolding k_def by simp
    with n show ?thesis by simp
  qed
  have w: "window_sample g (Some seed) n xs = take n (drop k xs)" for g
    by (simp add: window_sample_def k_def)
  have "take n (drop k xs) = map (nth xs) [k..<k + n]"
  proof (rule nth_equalityI)
    show "length (take n (drop k xs)) = length (map ((!) xs) [k..<k + n])" using k by simp
  next
    fix i assume "i < length (take n (drop k xs))"
    then have "i < n" by simp
    with k show "take n (drop k xs) ! i = map ((!) xs) [k..<k + n] ! i" by simp
  qed
  with k show "\<exists>is. length is = n \<and> distinct is \<and> set is \<subseteq> {..<length xs}
           \<and> window_sample g (Some seed) n xs = map (nth xs) is"
    by (intro exI [of _ "[k..<k + n]"]) (auto simp: w)
  show "window_sample g (Some seed) n xs = window_sample g' (Some seed) n xs"
    by (simp add: w)
qed

lemma big_df_located: "filter has_location (rows big_df) = replicate 3000 located_row"
  by (simp add: big_df_def has_location_def located_row_def)

text \<open>
  C7. When more than 2000 records of the subset have both coordinates present and
  non-zero, the map shows exactly 2000 points. They are the draw of 2000 rows, seeded
  with the constant 42, from the records that have a location: each point is such a
  record of the subset, taken at one of 2000 distinct positions among them, with its
  size. The draw does not depend on the state of the global random generator, so
  computing the points again gives the same points. pandas' \<open>sample\<close> is taken with its
  documented contract.
\<close>

theorem map_sample_size:
  assumes "sampler_contract sample"
    and "LATITUDE \<in> set (columns df)" and "LONGITUDE \<in> set (columns df)"
    and "2000 < length (filter has_location (rows df))"
  shows "\<exists>pts is. map_points sample g df = Some pts
           \<and> length pts = 2000
           \<and> map fst pts = sample g (Some 42) 2000 (filter has_location (rows df))
           \<and> length is = 2000 \<and> distinct is
           \<and> set is \<subseteq> {..<length (filter has_location (rows df))}
           \<and> pts = map (\<lambda>i. (filter has_location (rows df) ! i,
                              point_size df (filter has_location (rows df) ! i))) is
           \<and> (\<forall>p\<in>set pts. fst p \<in> set (rows df) \<and> has_location (fst p))
           \<and> map_points sample g' df = Some pts"
proof -
  define q where "q = filter has_location (rows df)"
  from assms(4) have le: "2000 \<le> length q" and ne: "q \<noteq> []" by (auto simp: q_def)
  from assms(1) le obtain "is" where "is": "length is = 2000" "distinct is"
      "set is \<subseteq> {..<length q}" "sample g (Some 42) 2000 q = map (nth q) is"
    unfolding sampler_contract_def by blast
  from assms(1) le have same: "sample g (Some 42) 2000 q = sample g' (Some 42) 2000 q"
    unfolding sampler_contract_def by blast
  define pts where "pts = map (\<lambda>r. (r, point_size df r)) (sample g (Some 42) 2000 q)"
  have mp: "map_points sample g df = Some pts"
    using assms(2,3,4) ne by (simp add: map_points_def Let_def pts_def q_def)
  have mp': "map_points sample g' df = Some pts"
    using assms(2,3,4) ne same by (simp add: map_points_def Let_def pts_def q_def)
  have len: "length pts = 2000" by (simp add: pts_def "is")
  have fsts: "map fst pts = sample g (Some 42) 2000 q" by (simp add: pts_def comp_def)
  have form: "pts = map (\<lambda>i. (q ! i, point_size df (q ! i))) is"
    by (simp add: pts_def "is" comp_def)
  have mem: "\<forall>p\<in>set pts. fst p \<in> set (rows df) \<and> has_location (fst p)"
  proof
    fix p assume "p \<in> set pts"
    then obtain i where i: "i \<in> set is" "p = (q ! i, point_size df (q ! i))"
      unfolding form by auto
    with "is"(3) have "i < length q" by auto
    then have "q ! i \<in> set q" by (rule nth_mem)
    then have "q ! i \<in> set (rows df) \<and> has_location (q ! i)" by (simp add: q_def)
    with i show "fst p \<in> set (rows df) \<and> has_location (fst p)" by simp
  qed
  from mp len fsts "is"(1,2,3) form mem mp' show ?thesis
    unfolding q_def by (intro exI [of _ pts] exI [of _ "is"] conjI)
qed

theorem map_sample_size_witness:
  "sampler_contract window_sample \<and> LATITUDE \<in> set (columns big_df)
   \<and> LONGITUDE \<in> set (columns big_df)
   \<and> length (filter has_location (rows big_df)) = 3000
   \<and> (\<exists>pts. map_points window_sample 0 big_df = Some pts \<and> length pts = 2000
         \<and> map fst pts = window_sample 0 (Some 42) 2000 (filter has_location (rows big_df))
         \<and> (\<forall>p\<in>set pts. fst p \<in> set (rows big_df) \<and> has_location (fst p))
         \<and> map_points window_sample 7 big_df = Some pts)"
proof -
  have c: "LATITUDE \<in> set (columns big_df)" "LONGITUDE \<in> set (columns big_df)"
    by (simp_all add: big_df_def all_columns_def)
  have n: "length (filter has_location (rows big_df)) = 3000" by (simp add: big_df_located)
  then have "2000 < length (filter has_location (rows big_df))" by simp
  from map_sample_size [OF window_sample_contract c this, of 0 7]
  have "\<exists>pts. map_points window_sample 0 big_df = Some pts \<and> length pts = 2000
         \<and> map fst pts = window_sample 0 (Some 42) 2000 (filter has_location (rows big_df))
         \<and> (\<forall>p\<in>set pts. fst p \<in> set (rows big_df) \<and> has_location (fst p))
         \<and> map_points window_sample 7 big_df = Some pts" by blast
  with window_sample_contract c n show ?thesis by (intro conjI)
qed

lemma count_list_dropna: "count_list (dropna xs) x = count_list xs (Some x)"
  by (induction xs rule: dropna.induct) auto

lemma count_list_filter: "count_list (filter P xs) x = (if P x then count_list xs x else 0)"
  by (induction xs) auto

lemma unique_props: "set (unique xs) = set xs" "distinct (unique xs)"
  by (simp_all add: unique_def)

lemma sorted_reverse_props:
  "set (sorted_reverse k xs) = set xs"
  "distinct (sorted_reverse k xs) = distinct xs"
  "length (sorted_reverse k xs) = length xs"
  "sorted_wrt (\<lambda>a b. k b \<le> k a) (sorted_reverse k xs)"
proof -
  have "sorted (map k (sort_key k (rev xs)))" by (rule sorted_sort_key)
  then have "sorted_wrt (\<lambda>a b. k a \<le> k b) (sort_key k (rev xs))" by (simp add: sorted_map)
  then show "sorted_wrt (\<lambda>a b. k b \<le> k a) (sorted_reverse k xs)"
    by (simp add: sorted_reverse_def sorted_wrt_rev)
qed (simp_all add: sorted_reverse_def)

lemma value_counts_set: "set (value_counts xs) = (\<lambda>v. (v, count_list xs v)) ` set xs"
  by (simp add: value_counts_def sorted_reverse_props unique_props)

lemma value_counts_distinct: "distinct (map fst (value_counts xs))"
proof -
  have "inj_on fst (set (value_counts xs))"
    by (auto simp: value_counts_set inj_on_def)
  moreover have "distinct (value_counts xs)"
    by (simp add: value_counts_def sorted_reverse_props distinct_map unique_props inj_on_def)
  ultimately show ?thesis by (simp add: distinct_map)
qed

lemma value_counts_sorted: "sorted_wrt (\<lambda>a b. snd b \<le> snd a) (value_counts xs)"
  by (simp add: value_counts_def sorted_reverse_props)

lemma factor_series_Some:
  assumes "factor_series df = Some s"
  shows "s = take 10 (value_counts (filter (\<lambda>f. f \<noteq> ''Unspecified'')
           (dropna (map (\<lambda>r. text_cell r CONTRIBUTING_FACTOR_VEHICLE_1) (rows df)
                    @ map (\<lambda>r. text_cell r CONTRIBUTING_FACTOR_VEHICLE_2) (rows df)))))"
  using assms
  by (auto simp: factor_series_def text_column_def andThen_def Let_def split: if_splits)

lemma pooled_count_eq:
  "count_list (filter (\<lambda>f. f \<noteq> ''Unspecified'')
           (dropna (map (\<lambda>r. text_cell r CONTRIBUTING_FACTOR_VEHICLE_1) (rows df)
                    @ map (\<lambda>r. text_cell r CONTRIBUTING_FACTOR_VEHICLE_2) (rows df)))) f
     = (if f \<noteq> ''Unspecified'' then pooled_count df f else 0)"
  by (simp add: count_list_filter count_list_dropna pooled_count_def)

lemma count_list_pos: "0 < count_list xs x \<longleftrightarrow> x \<in> set xs"
  by (induction xs) auto

lemma value_counts_mem:
  "(v, n) \<in> set (value_counts xs) \<longleftrightarrow> v \<in> set xs \<and> n = count_list xs v"
  by (auto simp: value_counts_set)

lemma take_top:
  assumes "sorted_wrt (\<lambda>a b. snd b \<le> snd a) xs" "y \<in> set xs" "y \<notin> set (take n xs)"
  shows "length (take n xs) = n \<and> (\<forall>x\<in>set (take n xs). snd y \<le> snd x)"
proof -
  have xs: "xs = take n xs @ drop n xs" by simp
  from assms(2,3) have yd: "y \<in> set (drop n xs)" by (metis Un_iff set_append xs)
  from assms(1) have "sorted_wrt (\<lambda>a b. snd b \<le> snd a) (take n xs @ drop n xs)" by simp
  then have "\<forall>a\<in>set (take n xs). \<forall>b\<in>set (drop n xs). snd b \<le> snd a"
    unfolding sorted_wrt_append by blast
  with yd have "\<forall>x\<in>set (take n xs). snd y \<le> snd x" by blast
  moreover from yd have "n < length xs" by (cases "n < length xs") auto
  ultimately show ?thesis by simp
qed

lemma factors_df_series:
  "factor_series factors_df = Some [(''Unsafe Speed'', 2), (''Alcohol Involvement'', 1)]"
  by code_simp

text \<open>
  C8. The contributing-factor series has at most 10 entries, ranked by count descending,
  one entry per factor. No entry is "Unspecified", and the count of an entry is the
  number of occurrences of its factor pooled over both factor columns. A factor left
  out has a count no greater than any entry, and the series is then full.
\<close>

theorem factor_series_top10:
  assumes "factor_series df = Some s"
  shows "length s \<le> 10
    \<and> sorted_wrt (\<lambda>a b. snd b \<le> snd a) s
    \<and> distinct (map fst s)
    \<and> (\<forall>(f, n)\<in>set s. f \<noteq> ''Unspecified'' \<and> 0 < n \<and> n = pooled_count df f)
    \<and> (\<forall>f. f \<noteq> ''Unspecified'' \<and> 0 < pooled_count df f \<and> f \<notin> fst ` set s
          \<longrightarrow> length s = 10 \<and> (\<forall>(f', n)\<in>set s. pooled_count df f \<le> n))"
proof -
  define xs where "xs = filter (\<lambda>f. f \<noteq> ''Unspecified'')
           (dropna (map (\<lambda>r. text_cell r CONTRIBUTING_FACTOR_VEHICLE_1) (rows df)
                    @ map (\<lambda>r. text_cell r CONTRIBUTING_FACTOR_VEHICLE_2) (rows df)))"
  define vc where "vc = value_counts xs"
  from assms have s: "s = take 10 vc" unfolding vc_def xs_def by (rule factor_series_Some)
  have cnt: "count_list xs f = (if f \<noteq> ''Unspecified'' then pooled_count df f else 0)" for f
    unfolding xs_def by (rule pooled_count_eq)
  have mem: "(f, n) \<in> set vc \<longleftrightarrow> f \<noteq> ''Unspecified'' \<and> 0 < n \<and> n = pooled_count df f" for f n
  proof -
    have *: "(f, n) \<in> set vc \<longleftrightarrow> 0 < count_list xs f \<and> n = count_list xs f"
      unfolding vc_def by (simp add: value_counts_mem count_list_pos)
    show ?thesis
    proof (cases "f = ''Unspecified''")
      case True
      then have "count_list xs f = 0" by (simp add: cnt)
      with * True show ?thesis by simp
    next
      case False
      then have "count_list xs f = pooled_count df f" by (simp add: cnt)
      with * False show ?thesis by auto
    qed
  qed
  have sorted_vc: "sorted_wrt (\<lambda>a b. snd b \<le> snd a) vc"
    unfolding vc_def by (rule value_counts_sorted)
  have 1: "length s \<le> 10" by (simp add: s)
  have 2: "sorted_wrt (\<lambda>a b. snd b \<le> snd a) s"
    unfolding s using sorted_vc by (rule sorted_wrt_take)
  have "distinct (map fst vc)" unfolding vc_def by (rule value_counts_distinct)
  then have "distinct (take 10 (map fst vc))" by (rule distinct_take)
  then have 3: "distinct (map fst s)" by (simp add: s take_map)
  have 4: "\<forall>(f, n)\<in>set s. f \<noteq> ''Unspecified'' \<and> 0 < n \<and> n = pooled_count df f"
  proof (clarify)
    fix f n assume "(f, n) \<in> set s"
    then have "(f, n) \<in> set vc" unfolding s by (rule in_set_takeD)
    then show "f \<noteq> ''Unspecified'' \<and> 0 < n \<and> n = pooled_count df f" unfolding mem .
  qed
  have 5: "\<forall>f. f \<noteq> ''Unspecified'' \<and> 0 < pooled_count df f \<and> f \<notin> fst ` set s
          \<longrightarrow> length s = 10 \<and> (\<forall>(f', n)\<in>set s. pooled_count df f \<le> n)"
  proof (intro allI impI)
    fix f
    assume a: "f \<noteq> ''Unspecified'' \<and> 0 < pooled_count df f \<and> f \<notin> fst ` set s"
    then have in_vc: "(f, pooled_count df f) \<in> set vc" unfolding mem by simp
    have out: "(f, pooled_count df f) \<notin> set (take 10 vc)"
    proof
      assume "(f, pooled_count df f) \<in> set (take 10 vc)"
      then have "fst (f, pooled_count df f) \<in> fst ` set s" unfolding s by (rule imageI)
      with a show False by simp
    qed
    from take_top [OF sorted_vc in_vc out]
    have "length s = 10" and t: "\<forall>x\<in>set s. pooled_count df f \<le> snd x" by (simp_all add: s)
    moreover have "\<forall>(f', n)\<in>set s. pooled_count df f \<le> n"
    proof (clarify)
      fix f' n assume "(f', n) \<in> set s"
      with t have "pooled_count df f \<le> snd (f', n)" by (rule bspec)
      then show "pooled_count df f \<le> n" by simp
    qed
    ultimately show "length s = 10 \<and> (\<forall>(f', n)\<in>set s. pooled_count df f \<le> n)" by blast
  qed
  from 1 2 3 4 5 show ?thesis by (intro conjI)
qed

theorem factor_series_top10_witness:
  "factor_series factors_df = Some [(''Unsafe Speed'', 2), (''Alcohol Involvement'', 1)]
   \<and> pooled_count factors_df ''Unsafe Speed'' = 2
   \<and> pooled_count factors_df ''Alcohol Involvement'' = 1
   \<and> 0 < pooled_count factors_df ''Unspecified''"
proof -
  note t = factor_series_top10 [OF factors_df_series]
  then have "\<forall>(f, n)\<in>set [(''Unsafe Speed'', 2::nat), (''Alcohol Involvement'', 1)].
      f \<noteq> ''Unspecified'' \<and> 0 < n \<and> n = pooled_count factors_df f"
    by (elim conjE)
  then have "pooled_count factors_df ''Unsafe Speed'' = 2"
    "pooled_count factors_df ''Alcohol Involvement'' = 1" by simp_all
  moreover have "0 < pooled_count factors_df ''Unspecified''"
    by (simp add: pooled_count_def factors_df_def two_factors_def)
  ultimately show ?thesis using factors_df_series by simp
qed

end
